theory Spec2Isabelle
  imports Complex_Main
begin

section \<open>Data model (main.go, lines 23-75)\<close>

text \<open>
  Go strings are byte sequences: \<open>string\<close> is \<open>char list\<close>, one \<open>char\<close> per byte,
  and Go's \<open>len(s)\<close> is \<open>length s\<close>. A \<open>time.Time\<close> is an instant in nanoseconds
  counted from Go's zero time; the zero value of the type is \<open>0\<close>.
\<close>

record CanvasData =
  KeyPartners :: string
  KeyActivities :: string
  KeyResources :: string
  ValueProposition :: string
  CustomerRel :: string
  Channels :: string
  CustomerSegments :: string
  CostStructure :: string
  RevenueStreams :: string

record Comment =
  comment_ID :: string
  comment_Section :: string
  comment_Text :: string
  comment_Author :: string
  comment_Timestamp :: int

record Version =
  ID :: string
  Timestamp :: int
  Data :: CanvasData
  Comments :: "Comment list"

text \<open>
  What a dialog call leaves on the screen: \<open>dialog.ShowError\<close> and
  \<open>dialog.ShowInformation\<close>, kept in the order of the calls.
\<close>

datatype notification =
  ShowError string
  | ShowInformation string string

text \<open>
  The editing session, \<open>Canvas\<close>. Each \<open>*widget.Entry\<close> is its \<open>Text\<close>. The
  validator is built once by \<open>NewBusinessValidator\<close> and never assigned again, so it
  is the constant below and not a field (its rules read the canvas). The progress bar
  and the entries' text style, which \<open>updateProgress\<close> and \<open>updateSectionColor\<close>
  write and nothing reads back, are not part of the state.
\<close>

record Canvas =
  keyPartners :: string
  keyActivities :: string
  keyResources :: string
  valueProposition :: string
  customerRel :: string
  channels :: string
  customerSegments :: string
  costStructure :: string
  revenueStreams :: string
  currentTheme :: string
  autoSave :: bool
  lastSaved :: int
  undoStack :: "CanvasData list"
  redoStack :: "CanvasData list"
  versions :: "Version list"
  dialogs :: "notification list"

definition getCurrentData :: "Canvas \<Rightarrow> CanvasData" where
  "getCurrentData c =
     \<lparr>KeyPartners = keyPartners c,
      KeyActivities = keyActivities c,
      KeyResources = keyResources c,
      ValueProposition = valueProposition c,
      CustomerRel = customerRel c,
      Channels = channels c,
      CustomerSegments = customerSegments c,
      CostStructure = costStructure c,
      RevenueStreams = revenueStreams c\<rparr>"

text \<open>
  The nine \<open>SetText\<close> calls that \<open>restoreVersion\<close>, \<open>undo\<close>, \<open>redo\<close> and
  \<open>loadCanvas\<close> each make, in the source's order.
\<close>

definition setTexts :: "CanvasData \<Rightarrow> Canvas \<Rightarrow> Canvas" where
  "setTexts d c =
     c\<lparr>keyPartners := KeyPartners d,
       keyActivities := KeyActivities d,
       keyResources := KeyResources d,
       valueProposition := ValueProposition d,
       customerRel := CustomerRel d,
       channels := Channels d,
       customerSegments := CustomerSegments d,
       costStructure := CostStructure d,
       revenueStreams := RevenueStreams d\<rparr>"

section \<open>Validator (main.go, lines 525-596)\<close>

record ValidationRule =
  rule_Section :: string
  rule_Check :: "Canvas \<Rightarrow> bool"
  rule_Message :: string

record ValidationResult =
  Section :: string
  Message :: string

record BusinessValidator =
  rules :: "ValidationRule list"

definition NewBusinessValidator :: BusinessValidator where
  "NewBusinessValidator =
     \<lparr>rules =
        [\<lparr>rule_Section = ''Value Proposition'',
          rule_Check = (\<lambda>c. length (valueProposition c) \<ge> 100),
          rule_Message = ''Consider adding more detail about your value proposition''\<rparr>,
         \<lparr>rule_Section = ''Customer Segments'',
          rule_Check = (\<lambda>c. length (customerSegments c) \<ge> 50),
          rule_Message = ''Customer segments need more specific details''\<rparr>,
         \<lparr>rule_Section = ''Key Activities'',
          rule_Check = (\<lambda>c. length (keyActivities c) \<ge> 50),
          rule_Message = ''Add more details about your key activities''\<rparr>,
         \<lparr>rule_Section = ''Cost Structure'',
          rule_Check = (\<lambda>c. length (costStructure c) \<ge> 50),
          rule_Message = ''Elaborate on your cost structure''\<rparr>,
         \<lparr>rule_Section = ''Revenue Streams'',
          rule_Check = (\<lambda>c. length (revenueStreams c) \<ge> 50),
          rule_Message = ''Provide more information about revenue streams''\<rparr>]\<rparr>"

text \<open>The loop of \<open>Validate\<close>: \<open>results\<close> grows at its end, one rule at a time.\<close>

fun Validate_loop ::
  "ValidationRule list \<Rightarrow> Canvas \<Rightarrow> ValidationResult list \<Rightarrow> ValidationResult list" where
  "Validate_loop [] canvas results = results"
| "Validate_loop (r # rs) canvas results =
     Validate_loop rs canvas
       (if \<not> rule_Check r canvas
        then results @ [\<lparr>Section = rule_Section r, Message = rule_Message r\<rparr>]
        else results)"

definition Validate :: "BusinessValidator \<Rightarrow> Canvas \<Rightarrow> ValidationResult list" where
  "Validate v canvas = Validate_loop (rules v) canvas []"

text \<open>
  The specification counts characters. In a UTF-8 text every character is one byte that
  is not a continuation byte (\<open>0x80\<close> to \<open>0xBF\<close>), followed by its continuation
  bytes; \<open>characterCount\<close> counts the former.
\<close>

definition isContinuationByte :: "char \<Rightarrow> bool" where
  "isContinuationByte b = (128 \<le> (of_char b :: nat) \<and> (of_char b :: nat) < 192)"

definition characterCount :: "string \<Rightarrow> nat" where
  "characterCount s = length (filter (\<lambda>b. \<not> isContinuationByte b) s)"

text \<open>
  The validator as the specification words it: the five thresholds over character
  counts, in rule-declaration order.
\<close>

definition spec_fails :: "nat \<Rightarrow> string \<Rightarrow> string \<Rightarrow> string \<Rightarrow> ValidationResult list" where
  "spec_fails threshold txt sec msg =
     (if characterCount txt < threshold then [\<lparr>Section = sec, Message = msg\<rparr>] else [])"

definition spec_Validate :: "Canvas \<Rightarrow> ValidationResult list" where
  "spec_Validate c =
     spec_fails 100 (valueProposition c) ''Value Proposition''
       ''Consider adding more detail about your value proposition'' @
     spec_fails 50 (customerSegments c) ''Customer Segments''
       ''Customer segments need more specific details'' @
     spec_fails 50 (keyActivities c) ''Key Activities''
       ''Add more details about your key activities'' @
     spec_fails 50 (costStructure c) ''Cost Structure''
       ''Elaborate on your cost structure'' @
     spec_fails 50 (revenueStreams c) ''Revenue Streams''
       ''Provide more information about revenue streams''"

text \<open>The same with Go's \<open>len\<close>, the number of bytes.\<close>

definition byte_fails :: "nat \<Rightarrow> string \<Rightarrow> string \<Rightarrow> string \<Rightarrow> ValidationResult list" where
  "byte_fails threshold txt sec msg =
     (if length txt < threshold then [\<lparr>Section = sec, Message = msg\<rparr>] else [])"

text \<open>
  A canvas whose value proposition is fifty times the letter e with an acute accent
  (U+00E9, the two bytes \<open>0xC3 0xA9\<close>): fifty characters, a hundred bytes. The four
  other sections with a rule hold fifty ASCII letters each.
\<close>

definition accented_canvas :: Canvas where
  "accented_canvas =
     \<lparr>keyPartners = [], keyActivities = replicate 50 (CHR ''a''), keyResources = [],
      valueProposition = concat (replicate 50 [CHR 0xC3, CHR 0xA9]),
      customerRel = [], channels = [],
      customerSegments = replicate 50 (CHR ''a''),
      costStructure = replicate 50 (CHR ''a''),
      revenueStreams = replicate 50 (CHR ''a''),
      currentTheme = ''professional'', autoSave = True, lastSaved = 0,
      undoStack = [], redoStack = [], versions = [], dialogs = []\<rparr>"

section \<open>History: undo and redo (main.go, lines 688-736)\<close>

text \<open>
  The statement \<open>c.undoStack = append(c.undoStack, c.getCurrentData())\<close>, with which
  \<open>restoreVersion\<close>, \<open>saveCanvas\<close> and \<open>loadCanvas\<close> save the current state.
\<close>

definition checkpoint :: "Canvas \<Rightarrow> Canvas" where
  "checkpoint c = c\<lparr>undoStack := undoStack c @ [getCurrentData c]\<rparr>"

definition undo :: "Canvas \<Rightarrow> Canvas" where
  "undo c =
     (if length (undoStack c) > 0 then
        let c1 = c\<lparr>redoStack := redoStack c @ [getCurrentData c]\<rparr>;
            lastState = undoStack c1 ! (length (undoStack c1) - 1);
            c2 = c1\<lparr>undoStack := take (length (undoStack c1) - 1) (undoStack c1)\<rparr>
        in setTexts lastState c2
      else c)"

definition redo :: "Canvas \<Rightarrow> Canvas" where
  "redo c =
     (if length (redoStack c) > 0 then
        let c1 = c\<lparr>undoStack := undoStack c @ [getCurrentData c]\<rparr>;
            lastState = redoStack c1 ! (length (redoStack c1) - 1);
            c2 = c1\<lparr>redoStack := take (length (redoStack c1) - 1) (redoStack c1)\<rparr>
        in setTexts lastState c2
      else c)"

text \<open>
  An edit: the user types, pastes or cuts in one of the nine entries, which replaces
  that entry's \<open>Text\<close>. The \<open>OnChanged\<close> callback of the entry
  (\<open>setupDynamicValidation\<close>) only restyles it.
\<close>

datatype entry =
  KeyPartnersEntry | KeyActivitiesEntry | KeyResourcesEntry | ValuePropositionEntry
  | CustomerRelEntry | ChannelsEntry | CustomerSegmentsEntry | CostStructureEntry
  | RevenueStreamsEntry

fun setText :: "entry \<Rightarrow> string \<Rightarrow> Canvas \<Rightarrow> Canvas" where
  "setText KeyPartnersEntry s c = c\<lparr>keyPartners := s\<rparr>"
| "setText KeyActivitiesEntry s c = c\<lparr>keyActivities := s\<rparr>"
| "setText KeyResourcesEntry s c = c\<lparr>keyResources := s\<rparr>"
| "setText ValuePropositionEntry s c = c\<lparr>valueProposition := s\<rparr>"
| "setText CustomerRelEntry s c = c\<lparr>customerRel := s\<rparr>"
| "setText ChannelsEntry s c = c\<lparr>channels := s\<rparr>"
| "setText CustomerSegmentsEntry s c = c\<lparr>customerSegments := s\<rparr>"
| "setText CostStructureEntry s c = c\<lparr>costStructure := s\<rparr>"
| "setText RevenueStreamsEntry s c = c\<lparr>revenueStreams := s\<rparr>"

text \<open>A run of edits, one after the other.\<close>

fun edits :: "(entry \<times> string) list \<Rightarrow> Canvas \<Rightarrow> Canvas" where
  "edits [] c = c"
| "edits ((e, s) # es) c = edits es (setText e s c)"

section \<open>Saving and loading (main.go, lines 738-816)\<close>

text \<open>
  What the file dialog hands to its callback: an error, no file (the user cancelled:
  the writer or reader is \<open>nil\<close>), or the file. A writer is what its \<open>Write\<close>
  answers (\<open>None\<close>: no error); a reader is what \<open>io.ReadAll\<close> answers (the error, or
  the bytes of the file).
\<close>

datatype 'a picked = DialogFailed string | DialogCancelled | Picked 'a

type_synonym writer = "string option"
type_synonym reader = "string + string"

text \<open>
  \<open>encoding/json\<close> is a parameter of the two operations: \<open>MarshalIndent\<close> answers
  an error or the document, \<open>Unmarshal\<close> an error or the decoded record.
\<close>

record json_package =
  MarshalIndent :: "CanvasData \<Rightarrow> string + string"
  Unmarshal :: "string \<Rightarrow> string + CanvasData"

definition notify :: "notification \<Rightarrow> Canvas \<Rightarrow> Canvas" where
  "notify n c = c\<lparr>dialogs := dialogs c @ [n]\<rparr>"

text \<open>\<open>saveCanvas\<close> answers the session and the bytes it handed to \<open>writer.Write\<close>.\<close>

definition saveCanvas :: "json_package \<Rightarrow> writer picked \<Rightarrow> Canvas \<Rightarrow> Canvas \<times> string option" where
  "saveCanvas json dlg c =
     (case dlg of
        DialogFailed err \<Rightarrow> (notify (ShowError err) c, None)
      | DialogCancelled \<Rightarrow> (c, None)
      | Picked w \<Rightarrow>
          let c1 = checkpoint c;
              data = getCurrentData c1
          in (case MarshalIndent json data of
                Inl err \<Rightarrow> (notify (ShowError err) c1, None)
              | Inr jsonData \<Rightarrow>
                  (case w of
                     Some err \<Rightarrow> (notify (ShowError err) c1, Some jsonData)
                   | None \<Rightarrow>
                       (notify (ShowInformation ''Success'' ''Canvas saved successfully'') c1,
                        Some jsonData))))"

definition loadCanvas :: "json_package \<Rightarrow> reader picked \<Rightarrow> Canvas \<Rightarrow> Canvas" where
  "loadCanvas json dlg c =
     (case dlg of
        DialogFailed err \<Rightarrow> notify (ShowError err) c
      | DialogCancelled \<Rightarrow> c
      | Picked r \<Rightarrow>
          let c1 = checkpoint c
          in (case r of
                Inl err \<Rightarrow> notify (ShowError err) c1
              | Inr bytes \<Rightarrow>
                  (case Unmarshal json bytes of
                     Inl err \<Rightarrow> notify (ShowError err) c1
                   | Inr canvasData \<Rightarrow>
                       notify (ShowInformation ''Success'' ''Canvas loaded successfully'')
                         (setTexts canvasData c1))))"

section \<open>The standard library's \<open>encoding/json\<close>, as the two calls use it\<close>

text \<open>
  \<open>json.MarshalIndent(data, "", "    ")\<close> and \<open>json.Unmarshal(data, &canvasData)\<close> on a
  \<open>CanvasData\<close>, a struct of nine tagged string fields: the encoder of strings
  (\<open>appendString\<close> with HTML escaping), the layout of \<open>Indent\<close>, the scanner, the
  decoder's \<open>unquote\<close> and its choice of the field for a key. Both work on UTF-8 with
  \<open>utf8.DecodeRune\<close> and \<open>utf8.EncodeRune\<close>; a character is its code point, a \<open>nat\<close>.
\<close>

definition RuneError :: nat where
  "RuneError = 0xFFFD"

text \<open>
  \<open>utf8.DecodeRune\<close>: the character at the head of the bytes and its width; a byte that
  starts no well-formed character is \<open>RuneError\<close> with width 1.
\<close>

fun DecodeRune :: "string \<Rightarrow> nat \<times> nat" where
  "DecodeRune [] = (RuneError, 0)"
| "DecodeRune (c0 # p) =
     (let p0 = (of_char c0 :: nat) in
      if p0 < 0x80 then (p0, 1)
      else if p0 < 0xC2 \<or> 0xF5 \<le> p0 then (RuneError, 1)
      else
        let sz = (if p0 < 0xE0 then 2 else if p0 < 0xF0 then 3 else 4 :: nat);
            lo = (if p0 = 0xE0 then 0xA0 else if p0 = 0xF0 then 0x90 else 0x80 :: nat);
            hi = (if p0 = 0xED then 0x9F else if p0 = 0xF4 then 0x8F else 0xBF :: nat)
        in if length (c0 # p) < sz then (RuneError, 1)
           else
             let b1 = (of_char (p ! 0) :: nat) in
             if b1 < lo \<or> hi < b1 then (RuneError, 1)
             else if sz \<le> 2 then ((p0 mod 32) * 64 + b1 mod 64, 2)
             else
               let b2 = (of_char (p ! 1) :: nat) in
               if b2 < 0x80 \<or> 0xBF < b2 then (RuneError, 1)
               else if sz \<le> 3 then ((p0 mod 16) * 4096 + (b1 mod 64) * 64 + b2 mod 64, 3)
               else
                 let b3 = (of_char (p ! 2) :: nat) in
                 if b3 < 0x80 \<or> 0xBF < b3 then (RuneError, 1)
                 else ((p0 mod 8) * 262144 + (b1 mod 64) * 4096 + (b2 mod 64) * 64 + b3 mod 64,
                       4))"

text \<open>\<open>utf8.EncodeRune\<close>; a surrogate or a value beyond U+10FFFF is written as \<open>RuneError\<close>.\<close>

definition EncodeRune :: "nat \<Rightarrow> string" where
  "EncodeRune r =
     (if r \<le> 0x7F then [char_of r]
      else if r \<le> 0x7FF then [char_of (0xC0 + r div 64), char_of (0x80 + r mod 64)]
      else
        let r = (if r > 0x10FFFF \<or> (0xD800 \<le> r \<and> r \<le> 0xDFFF) then RuneError else r) in
        if r \<le> 0xFFFF
        then [char_of (0xE0 + r div 4096), char_of (0x80 + (r div 64) mod 64),
              char_of (0x80 + r mod 64)]
        else [char_of (0xF0 + r div 262144), char_of (0x80 + (r div 4096) mod 64),
              char_of (0x80 + (r div 64) mod 64), char_of (0x80 + r mod 64)])"




text \<open>
  The encoder of a string: \<open>htmlSafe\<close> is the table \<open>htmlSafeSet\<close>, \<open>escape\<close> the loop
  of \<open>appendString\<close> between the two quotes.
\<close>

definition hex :: "nat \<Rightarrow> char" where
  "hex n = ''0123456789abcdef'' ! n"

definition htmlSafe :: "nat \<Rightarrow> bool" where
  "htmlSafe b =
     (0x20 \<le> b \<and> b < 0x80 \<and> b \<noteq> 0x22 \<and> b \<noteq> 0x5C \<and> b \<noteq> 0x3C \<and> b \<noteq> 0x3E \<and> b \<noteq> 0x26)"

fun escape :: "string \<Rightarrow> string" where
  "escape [] = []"
| "escape (c # s) =
     (let b = (of_char c :: nat) in
      if b < 0x80 then
        (if htmlSafe b then [c]
         else if b = 0x5C \<or> b = 0x22 then [CHR 0x5C, c]
         else if b = 0x08 then [CHR 0x5C, CHR ''b'']
         else if b = 0x0C then [CHR 0x5C, CHR ''f'']
         else if b = 0x0A then [CHR 0x5C, CHR ''n'']
         else if b = 0x0D then [CHR 0x5C, CHR ''r'']
         else if b = 0x09 then [CHR 0x5C, CHR ''t'']
         else [CHR 0x5C, CHR ''u'', CHR ''0'', CHR ''0'', hex (b div 16), hex (b mod 16)])
        @ escape s
      else
        let (r, size) = DecodeRune (take 4 (c # s)) in
        if r = RuneError \<and> size = 1 then CHR 0x5C # ''ufffd'' @ escape s
        else if r = 0x2028 \<or> r = 0x2029
        then [CHR 0x5C, CHR ''u'', CHR ''2'', CHR ''0'', CHR ''2'', hex (r mod 16)]
             @ escape (drop (size - 1) s)
        else take size (c # s) @ escape (drop (size - 1) s))"

definition appendString :: "string \<Rightarrow> string" where
  "appendString src = CHR 0x22 # escape src @ [CHR 0x22]"


text \<open>The document: one member per field, in the order of the struct, indented by four spaces.\<close>

definition MarshalIndent_CanvasData :: "CanvasData \<Rightarrow> string" where
  "MarshalIndent_CanvasData d =
     ''{'' @ [CHR 0x0A] @
     ''    '' @ appendString ''keyPartners'' @ '': '' @ appendString (KeyPartners d) @ '','' @ [CHR 0x0A] @
     ''    '' @ appendString ''keyActivities'' @ '': '' @ appendString (KeyActivities d) @ '','' @ [CHR 0x0A] @
     ''    '' @ appendString ''keyResources'' @ '': '' @ appendString (KeyResources d) @ '','' @ [CHR 0x0A] @
     ''    '' @ appendString ''valueProposition'' @ '': '' @ appendString (ValueProposition d) @ '','' @ [CHR 0x0A] @
     ''    '' @ appendString ''customerRelationships'' @ '': '' @ appendString (CustomerRel d) @ '','' @ [CHR 0x0A] @
     ''    '' @ appendString ''channels'' @ '': '' @ appendString (Channels d) @ '','' @ [CHR 0x0A] @
     ''    '' @ appendString ''customerSegments'' @ '': '' @ appendString (CustomerSegments d) @ '','' @ [CHR 0x0A] @
     ''    '' @ appendString ''costStructure'' @ '': '' @ appendString (CostStructure d) @ '','' @ [CHR 0x0A] @
     ''    '' @ appendString ''revenueStreams'' @ '': '' @ appendString (RevenueStreams d) @ [CHR 0x0A] @
     ''}''"

text \<open>
  Reading a string literal, from after its opening quote: the checks of the scanner
  (no control character, only the escapes of JSON) and the bytes that \<open>unquote\<close>
  builds, with what follows the closing quote. \<open>None\<close> is a syntax error.
\<close>

definition hexval :: "char \<Rightarrow> nat option" where
  "hexval c =
     (let b = (of_char c :: nat) in
      if 0x30 \<le> b \<and> b \<le> 0x39 then Some (b - 0x30)
      else if 0x61 \<le> b \<and> b \<le> 0x66 then Some (b - 0x61 + 10)
      else if 0x41 \<le> b \<and> b \<le> 0x46 then Some (b - 0x41 + 10)
      else None)"

text \<open>Four hexadecimal digits, as \<open>getu4\<close> reads them after \<open>\u\<close>.\<close>

fun hex4 :: "string \<Rightarrow> nat option" where
  "hex4 (a # b # c # d # s) =
     (case (hexval a, hexval b, hexval c, hexval d) of
        (Some x, Some y, Some z, Some w) \<Rightarrow> Some (((x * 16 + y) * 16 + z) * 16 + w)
      | _ \<Rightarrow> None)"
| "hex4 s = None"

fun getu4 :: "string \<Rightarrow> nat option" where
  "getu4 (b # u # s) = (if b = CHR 0x5C \<and> u = CHR ''u'' then hex4 s else None)"
| "getu4 s = None"

definition utf16_DecodeRune :: "nat \<Rightarrow> nat option \<Rightarrow> nat" where
  "utf16_DecodeRune r1 r2 =
     (case r2 of
        None \<Rightarrow> RuneError
      | Some r2 \<Rightarrow>
          if 0xD800 \<le> r1 \<and> r1 < 0xDC00 \<and> 0xDC00 \<le> r2 \<and> r2 < 0xE000
          then (r1 - 0xD800) * 1024 + (r2 - 0xDC00) + 0x10000
          else RuneError)"

definition simple_escape :: "char \<Rightarrow> char option" where
  "simple_escape e =
     (if e = CHR 0x22 \<or> e = CHR 0x5C \<or> e = CHR ''/'' then Some e
      else if e = CHR ''b'' then Some (CHR 0x08)
      else if e = CHR ''f'' then Some (CHR 0x0C)
      else if e = CHR ''n'' then Some (CHR 0x0A)
      else if e = CHR ''r'' then Some (CHR 0x0D)
      else if e = CHR ''t'' then Some (CHR 0x09)
      else None)"

definition emit :: "string \<Rightarrow> (string \<times> string) option \<Rightarrow> (string \<times> string) option" where
  "emit out r = (case r of None \<Rightarrow> None | Some (str, rest) \<Rightarrow> Some (out @ str, rest))"

fun unquote :: "string \<Rightarrow> (string \<times> string) option" where
  "unquote [] = None"
| "unquote (c # s) =
     (if c = CHR 0x22 then Some ([], s)
      else if c = CHR 0x5C then
        (case s of
           [] \<Rightarrow> None
         | e # s' \<Rightarrow>
             if e = CHR ''u'' then
               (case hex4 s' of
                  None \<Rightarrow> None
                | Some rr \<Rightarrow>
                    if 0xD800 \<le> rr \<and> rr < 0xE000 then
                      (let dec = utf16_DecodeRune rr (getu4 (drop 4 s')) in
                       if dec \<noteq> RuneError then emit (EncodeRune dec) (unquote (drop 10 s'))
                       else emit (EncodeRune RuneError) (unquote (drop 4 s')))
                    else emit (EncodeRune rr) (unquote (drop 4 s')))
             else
               (case simple_escape e of
                  None \<Rightarrow> None
                | Some x \<Rightarrow> emit [x] (unquote s')))
      else if (of_char c :: nat) < 0x20 then None
      else if (of_char c :: nat) < 0x80 then emit [c] (unquote s)
      else
        (let (rr, size) = DecodeRune (c # s)
         in emit (EncodeRune rr) (unquote (drop (size - 1) s))))"


lemma emit_length:
  "emit out r = Some (str, rest) \<Longrightarrow> \<exists>str'. r = Some (str', rest)"
  by (auto simp: emit_def split: option.splits)

lemma unquote_length:
  "unquote s = Some (str, rest) \<Longrightarrow> length rest < length s"
proof (induction s arbitrary: str rest rule: unquote.induct)
  case 1
  then show ?case by simp
next
  case (2 c s)
  show ?case
  proof (cases "c = CHR 0x22")
    case True
    then show ?thesis using "2.prems" by simp
  next
    case quote: False
    show ?thesis
    proof (cases "c = CHR 0x5C")
      case True
      then show ?thesis
        using "2.prems" "2.IH"(1-4) quote
        by (fastforce simp: Let_def split: list.splits option.splits if_splits dest!: emit_length)
    next
      case False
      then show ?thesis
        using "2.prems" "2.IH"(5,6) quote
        by (fastforce simp: Let_def split: prod.splits if_splits dest!: emit_length)
    qed
  qed
qed

text \<open>The tokens of a document. White space separates them and is dropped.\<close>

datatype token =
  LBrace | RBrace | LBracket | RBracket | Colon | Comma
  | TString string | TNumber | TTrue | TFalse | TNull

definition is_space :: "char \<Rightarrow> bool" where
  "is_space c = (c = CHR '' '' \<or> c = CHR 0x09 \<or> c = CHR 0x0D \<or> c = CHR 0x0A)"

definition is_digit :: "char \<Rightarrow> bool" where
  "is_digit c = (0x30 \<le> (of_char c :: nat) \<and> (of_char c :: nat) \<le> 0x39)"

text \<open>The number automaton of the scanner; each function answers what follows the number.\<close>

definition digits1 :: "string \<Rightarrow> string option" where
  "digits1 s = (case s of [] \<Rightarrow> None | c # t \<Rightarrow> if is_digit c then Some (dropWhile is_digit t) else None)"

definition exponent :: "string \<Rightarrow> string option" where
  "exponent s =
     (case s of
        [] \<Rightarrow> Some []
      | c # t \<Rightarrow>
          if c = CHR ''e'' \<or> c = CHR ''E'' then
            (case t of
               [] \<Rightarrow> None
             | sign # u \<Rightarrow> if sign = CHR ''+'' \<or> sign = CHR ''-'' then digits1 u else digits1 t)
          else Some s)"

definition fraction :: "string \<Rightarrow> string option" where
  "fraction s =
     (case s of
        [] \<Rightarrow> Some []
      | c # t \<Rightarrow>
          if c = CHR ''.'' then (case digits1 t of None \<Rightarrow> None | Some u \<Rightarrow> exponent u)
          else exponent s)"

definition integer :: "string \<Rightarrow> string option" where
  "integer s =
     (case s of
        [] \<Rightarrow> None
      | c # t \<Rightarrow>
          if c = CHR ''0'' then fraction t
          else if is_digit c then fraction (dropWhile is_digit t)
          else None)"

definition number :: "string \<Rightarrow> string option" where
  "number s = (case s of [] \<Rightarrow> None | c # t \<Rightarrow> if c = CHR ''-'' then integer t else integer s)"

lemma digits1_length: "digits1 s = Some r \<Longrightarrow> length r < length s"
  by (auto simp: digits1_def less_Suc_eq_le length_dropWhile_le split: list.splits if_splits)

lemma exponent_length: "exponent s = Some r \<Longrightarrow> length r \<le> length s"
  by (fastforce simp: exponent_def split: list.splits if_splits dest: digits1_length)

lemma fraction_length: "fraction s = Some r \<Longrightarrow> length r \<le> length s"
  by (fastforce simp: fraction_def split: list.splits if_splits option.splits
      dest: digits1_length exponent_length)

lemma integer_length: "integer s = Some r \<Longrightarrow> length r < length s"
proof (cases s)
  case Nil
  then show "integer s = Some r \<Longrightarrow> length r < length s" by (simp add: integer_def)
next
  case (Cons c t)
  assume "integer s = Some r"
  then have "fraction t = Some r \<or> fraction (dropWhile is_digit t) = Some r"
    using Cons by (auto simp: integer_def split: if_splits)
  then have "length r \<le> length t"
    using fraction_length [of t r] fraction_length [of "dropWhile is_digit t" r]
      length_dropWhile_le [of is_digit t]
    by auto
  then show "length r < length s" using Cons by simp
qed

lemma number_length: "number s = Some r \<Longrightarrow> length r < length s"
  by (fastforce simp: number_def split: list.splits if_splits dest: integer_length)

definition cons_token :: "token \<Rightarrow> token list option \<Rightarrow> token list option" where
  "cons_token t r = map_option ((#) t) r"

function tokenize :: "string \<Rightarrow> token list option" where
  "tokenize [] = Some []"
| "tokenize (c # s) =
     (if is_space c then tokenize s
      else if c = CHR ''{'' then cons_token LBrace (tokenize s)
      else if c = CHR ''}'' then cons_token RBrace (tokenize s)
      else if c = CHR ''['' then cons_token LBracket (tokenize s)
      else if c = CHR '']'' then cons_token RBracket (tokenize s)
      else if c = CHR '':'' then cons_token Colon (tokenize s)
      else if c = CHR '','' then cons_token Comma (tokenize s)
      else if c = CHR 0x22 then
        (case unquote s of
           None \<Rightarrow> None
         | Some (str, rest) \<Rightarrow> cons_token (TString str) (tokenize rest))
      else if c = CHR ''t'' then
        (if take 3 s = ''rue'' then cons_token TTrue (tokenize (drop 3 s)) else None)
      else if c = CHR ''f'' then
        (if take 4 s = ''alse'' then cons_token TFalse (tokenize (drop 4 s)) else None)
      else if c = CHR ''n'' then
        (if take 3 s = ''ull'' then cons_token TNull (tokenize (drop 3 s)) else None)
      else
        (case number (c # s) of
           None \<Rightarrow> None
         | Some rest \<Rightarrow> cons_token TNumber (tokenize rest)))"
  by pat_completeness auto
termination
proof (relation "measure length")
  show "wf (measure length)" by simp
qed (auto simp: less_Suc_eq_le dest: unquote_length number_length)


text \<open>A document, and the scanner that builds it from the tokens, one token a step.\<close>

datatype json =
  JNull | JBool bool | JNumber | JString string | JArray "json list"
  | JObject "(string \<times> json) list"

text \<open>
  The scanner's stack of open arrays and objects (\<open>parseState\<close>), each with the values
  read so far; an object that has read a key and waits for its value holds the key.
\<close>

datatype frame =
  InArray "json list"
  | InObject "(string \<times> json) list" "string option"

datatype expect =
  BeginValue | BeginValueOrEmpty | BeginStringOrEmpty | BeginString | ExpectColon | EndValue

datatype scanner =
  Scanning expect "frame list"
  | EndTop json

definition maxNestingDepth :: nat where
  "maxNestingDepth = 10000"

text \<open>A value is complete: it goes to the array or object that is open, or it is the document.\<close>

fun endValue :: "json \<Rightarrow> frame list \<Rightarrow> scanner option" where
  "endValue v [] = Some (EndTop v)"
| "endValue v (InArray xs # st) = Some (Scanning EndValue (InArray (xs @ [v]) # st))"
| "endValue v (InObject ms (Some k) # st) =
     Some (Scanning EndValue (InObject (ms @ [(k, v)]) None # st))"
| "endValue v (InObject ms None # st) = None"

definition beginValue :: "token \<Rightarrow> frame list \<Rightarrow> scanner option" where
  "beginValue t st =
     (case t of
        LBrace \<Rightarrow>
          if length st + 1 > maxNestingDepth then None
          else Some (Scanning BeginStringOrEmpty (InObject [] None # st))
      | LBracket \<Rightarrow>
          if length st + 1 > maxNestingDepth then None
          else Some (Scanning BeginValueOrEmpty (InArray [] # st))
      | TString s \<Rightarrow> endValue (JString s) st
      | TNumber \<Rightarrow> endValue JNumber st
      | TTrue \<Rightarrow> endValue (JBool True) st
      | TFalse \<Rightarrow> endValue (JBool False) st
      | TNull \<Rightarrow> endValue JNull st
      | _ \<Rightarrow> None)"

fun scan :: "scanner \<Rightarrow> token \<Rightarrow> scanner option" where
  "scan (EndTop v) t = None"
| "scan (Scanning BeginValue st) t = beginValue t st"
| "scan (Scanning BeginValueOrEmpty st) t =
     (case (t, st) of
        (RBracket, InArray xs # st') \<Rightarrow> endValue (JArray xs) st'
      | _ \<Rightarrow> beginValue t st)"
| "scan (Scanning BeginStringOrEmpty st) t =
     (case (t, st) of
        (RBrace, InObject ms None # st') \<Rightarrow> endValue (JObject ms) st'
      | (TString k, InObject ms None # st') \<Rightarrow> Some (Scanning ExpectColon (InObject ms (Some k) # st'))
      | _ \<Rightarrow> None)"
| "scan (Scanning BeginString st) t =
     (case (t, st) of
        (TString k, InObject ms None # st') \<Rightarrow> Some (Scanning ExpectColon (InObject ms (Some k) # st'))
      | _ \<Rightarrow> None)"
| "scan (Scanning ExpectColon st) t =
     (case t of Colon \<Rightarrow> Some (Scanning BeginValue st) | _ \<Rightarrow> None)"
| "scan (Scanning EndValue st) t =
     (case (t, st) of
        (Comma, InArray xs # st') \<Rightarrow> Some (Scanning BeginValue st)
      | (RBracket, InArray xs # st') \<Rightarrow> endValue (JArray xs) st'
      | (Comma, InObject ms None # st') \<Rightarrow> Some (Scanning BeginString st)
      | (RBrace, InObject ms None # st') \<Rightarrow> endValue (JObject ms) st'
      | _ \<Rightarrow> None)"

fun scanAll :: "scanner \<Rightarrow> token list \<Rightarrow> json option" where
  "scanAll (EndTop v) [] = Some v"
| "scanAll (Scanning e st) [] = None"
| "scanAll sc (t # ts) = (case scan sc t of None \<Rightarrow> None | Some sc' \<Rightarrow> scanAll sc' ts)"

definition parse :: "string \<Rightarrow> json option" where
  "parse bytes =
     (case tokenize bytes of None \<Rightarrow> None | Some ts \<Rightarrow> scanAll (Scanning BeginValue []) ts)"

text \<open>
  \<open>foldName\<close>: ASCII letters to upper case, every other character to the smallest
  character of its case orbit. The nine names are ASCII; the only characters outside
  ASCII whose orbit meets ASCII are the Kelvin sign (U+212A, with K) and the long s
  (U+017F, with S), so every other character stands for its own orbit here.
\<close>

definition foldRune :: "nat \<Rightarrow> nat" where
  "foldRune r = (if r = 0x212A then 0x4B else if r = 0x17F then 0x53 else r)"

fun foldName :: "string \<Rightarrow> string" where
  "foldName [] = []"
| "foldName (c # s) =
     (let b = (of_char c :: nat) in
      if b < 0x80 then
        (if 0x61 \<le> b \<and> b \<le> 0x7A then char_of (b - 0x20) else c) # foldName s
      else
        (let (r, n) = DecodeRune (c # s)
         in EncodeRune (foldRune r) @ foldName (drop (n - 1) s)))"

text \<open>The fields of \<open>CanvasData\<close> with their \<open>json\<close> tags, in the order of the struct.\<close>

datatype field =
  KeyPartnersField | KeyActivitiesField | KeyResourcesField | ValuePropositionField
  | CustomerRelField | ChannelsField | CustomerSegmentsField | CostStructureField
  | RevenueStreamsField

definition typeFields :: "(string \<times> field) list" where
  "typeFields =
     [(''keyPartners'', KeyPartnersField),
      (''keyActivities'', KeyActivitiesField),
      (''keyResources'', KeyResourcesField),
      (''valueProposition'', ValuePropositionField),
      (''customerRelationships'', CustomerRelField),
      (''channels'', ChannelsField),
      (''customerSegments'', CustomerSegmentsField),
      (''costStructure'', CostStructureField),
      (''revenueStreams'', RevenueStreamsField)]"


fun setField :: "field \<Rightarrow> string \<Rightarrow> CanvasData \<Rightarrow> CanvasData" where
  "setField KeyPartnersField s d = d\<lparr>KeyPartners := s\<rparr>"
| "setField KeyActivitiesField s d = d\<lparr>KeyActivities := s\<rparr>"
| "setField KeyResourcesField s d = d\<lparr>KeyResources := s\<rparr>"
| "setField ValuePropositionField s d = d\<lparr>ValueProposition := s\<rparr>"
| "setField CustomerRelField s d = d\<lparr>CustomerRel := s\<rparr>"
| "setField ChannelsField s d = d\<lparr>Channels := s\<rparr>"
| "setField CustomerSegmentsField s d = d\<lparr>CustomerSegments := s\<rparr>"
| "setField CostStructureField s d = d\<lparr>CostStructure := s\<rparr>"
| "setField RevenueStreamsField s d = d\<lparr>RevenueStreams := s\<rparr>"

text \<open>The field a key names: the exact name first, then the name up to case.\<close>

definition lookupField :: "string \<Rightarrow> field option" where
  "lookupField key =
     (case map_of typeFields key of
        Some f \<Rightarrow> Some f
      | None \<Rightarrow> map_of (map (\<lambda>(n, f). (foldName n, f)) typeFields) (foldName key))"

text \<open>
  The decoding state: the record so far, and the first \<open>UnmarshalTypeError\<close> met
  (\<open>d.savedError\<close>), named by the kind of the value that did not fit. A string is
  stored; \<open>null\<close> leaves the field as it is; every other value is an error, and the
  decoding goes on.
\<close>

definition saveError :: "string \<Rightarrow> CanvasData \<times> string option \<Rightarrow> CanvasData \<times> string option" where
  "saveError kind st = (fst st, case snd st of None \<Rightarrow> Some kind | Some e \<Rightarrow> Some e)"

definition storeString :: "field \<Rightarrow> json \<Rightarrow> CanvasData \<times> string option \<Rightarrow>
    CanvasData \<times> string option" where
  "storeString f v st =
     (case v of
        JString s \<Rightarrow> (setField f s (fst st), snd st)
      | JNull \<Rightarrow> st
      | JBool b \<Rightarrow> saveError ''bool'' st
      | JNumber \<Rightarrow> saveError ''number'' st
      | JArray xs \<Rightarrow> saveError ''array'' st
      | JObject ms \<Rightarrow> saveError ''object'' st)"

fun decodeObject :: "(string \<times> json) list \<Rightarrow> CanvasData \<times> string option \<Rightarrow>
    CanvasData \<times> string option" where
  "decodeObject [] st = st"
| "decodeObject ((key, v) # ms) st =
     decodeObject ms (case lookupField key of None \<Rightarrow> st | Some f \<Rightarrow> storeString f v st)"

text \<open>The zero value of \<open>CanvasData\<close>, which \<open>var canvasData CanvasData\<close> declares.\<close>

definition zero_CanvasData :: CanvasData where
  "zero_CanvasData =
     \<lparr>KeyPartners = [], KeyActivities = [], KeyResources = [], ValueProposition = [],
      CustomerRel = [], Channels = [], CustomerSegments = [], CostStructure = [],
      RevenueStreams = []\<rparr>"

text \<open>
  Decoding a document into a zero \<open>CanvasData\<close>. The texts of the errors are shortened:
  the program only shows them.
\<close>

definition decode :: "json \<Rightarrow> string + CanvasData" where
  "decode v =
     (case v of
        JObject ms \<Rightarrow>
          (case decodeObject ms (zero_CanvasData, None) of
             (d, None) \<Rightarrow> Inr d
           | (d, Some kind) \<Rightarrow>
               Inl (''json: cannot unmarshal '' @ kind @ '' into Go struct field of type string''))
      | JNull \<Rightarrow> Inr zero_CanvasData
      | JBool b \<Rightarrow> Inl ''json: cannot unmarshal bool into Go value of type main.CanvasData''
      | JNumber \<Rightarrow> Inl ''json: cannot unmarshal number into Go value of type main.CanvasData''
      | JString s \<Rightarrow> Inl ''json: cannot unmarshal string into Go value of type main.CanvasData''
      | JArray xs \<Rightarrow> Inl ''json: cannot unmarshal array into Go value of type main.CanvasData'')"

definition Unmarshal_CanvasData :: "string \<Rightarrow> string + CanvasData" where
  "Unmarshal_CanvasData bytes =
     (case parse bytes of None \<Rightarrow> Inl ''json: syntax error'' | Some v \<Rightarrow> decode v)"



text \<open>The package, as \<open>saveCanvas\<close> and \<open>loadCanvas\<close> take it. Marshalling nine strings has no error.\<close>

definition encoding_json :: json_package where
  "encoding_json =
     \<lparr>MarshalIndent = (\<lambda>d. Inr (MarshalIndent_CanvasData d)),
      Unmarshal = Unmarshal_CanvasData\<rparr>"

section \<open>Version store and autosave (main.go, lines 359-380, 472-523)\<close>

text \<open>
  \<open>saveCurrentVersion\<close> reads the outside world three times: \<open>uuid.New()\<close>, and
  \<open>time.Now()\<close> twice.
\<close>

record snapshot_reads =
  uuid_New :: string
  time_Now_1 :: int
  time_Now_2 :: int

definition saveCurrentVersion :: "snapshot_reads \<Rightarrow> Canvas \<Rightarrow> Canvas" where
  "saveCurrentVersion env c =
     (let version = \<lparr>ID = uuid_New env, Timestamp = time_Now_1 env,
                     Data = getCurrentData c, Comments = []\<rparr>
      in c\<lparr>versions := versions c @ [version], lastSaved := time_Now_2 env\<rparr>)"

text \<open>
  A \<open>time.Duration\<close> is a signed 64-bit count of nanoseconds; \<open>Time.Sub\<close> saturates
  at its two ends, and \<open>time.Since(t)\<close> is \<open>time.Now().Sub(t)\<close>.
\<close>

definition Minute :: int where
  "Minute = 60 * 1000000000"

definition maxDuration :: int where
  "maxDuration = 2 ^ 63 - 1"

definition minDuration :: int where
  "minDuration = - (2 ^ 63)"

definition time_Sub :: "int \<Rightarrow> int \<Rightarrow> int" where
  "time_Sub t u =
     (let d = t - u
      in if d > maxDuration then maxDuration else if d < minDuration then minDuration else d)"

definition time_Since :: "int \<Rightarrow> int \<Rightarrow> int" where
  "time_Since now t = time_Sub now t"

text \<open>
  One firing of the ticker in \<open>autoSaveRoutine\<close>: \<open>now\<close> is the clock as
  \<open>time.Since\<close> reads it. The routine is the loop over the firings.
\<close>

definition autoSaveTick :: "int \<Rightarrow> snapshot_reads \<Rightarrow> Canvas \<Rightarrow> Canvas" where
  "autoSaveTick now env c =
     (if autoSave c \<and> time_Since now (lastSaved c) \<ge> 5 * Minute
      then saveCurrentVersion env c else c)"

fun autoSaveRoutine :: "(int \<times> snapshot_reads) list \<Rightarrow> Canvas \<Rightarrow> Canvas" where
  "autoSaveRoutine [] c = c"
| "autoSaveRoutine ((now, env) # ticks) c = autoSaveRoutine ticks (autoSaveTick now env c)"

definition restoreVersion :: "Version \<Rightarrow> Canvas \<Rightarrow> Canvas" where
  "restoreVersion version c =
     (let c1 = checkpoint c
      in notify (ShowInformation ''Success'' ''Version restored successfully'')
           (setTexts (Data version) c1))"

section \<open>PDF layout (main.go, lines 818-899)\<close>

text \<open>
  A \<open>float64\<close> is the rational number it stands for. Every arithmetic operation
  rounds its exact result to the nearest number with a 53-bit significand, ties to the
  even significand: \<open>float64_exponent x\<close> is the binary exponent \<open>e\<close> of \<open>x\<close>
  (\<open>2\<^sup>e \<le> |x| < 2\<^sup>e\<^sup>+\<^sup>1\<close>, not below \<open>-1022\<close>, where the subnormal numbers
  start), and the representable numbers around \<open>x\<close> are the multiples of
  \<open>2\<^sup>e\<^sup>-\<^sup>5\<^sup>2\<close>. Overflow to infinity (magnitudes from \<open>2\<^sup>1\<^sup>0\<^sup>2\<^sup>4\<close>) is outside
  the model; the layout stays below 420.
\<close>

fun normalize_up :: "nat \<Rightarrow> rat \<Rightarrow> int" where
  "normalize_up 0 x = 0"
| "normalize_up (Suc n) x = (if x < 2 then 0 else 1 + normalize_up n (x / 2))"

fun normalize_down :: "nat \<Rightarrow> rat \<Rightarrow> int" where
  "normalize_down 0 x = 0"
| "normalize_down (Suc n) x = (if 1 \<le> x then 0 else normalize_down n (x * 2) - 1)"

definition float64_exponent :: "rat \<Rightarrow> int" where
  "float64_exponent x =
     (if 1 \<le> \<bar>x\<bar> then normalize_up 1023 \<bar>x\<bar> else normalize_down 1022 \<bar>x\<bar>)"

definition round_half_even :: "rat \<Rightarrow> int" where
  "round_half_even x =
     (let n = \<lfloor>x\<rfloor>; r = x - of_int n
      in if r < 1 / 2 then n else if r > 1 / 2 then n + 1 else if even n then n else n + 1)"

definition float64 :: "rat \<Rightarrow> rat" where
  "float64 x =
     (let q = 2 powi (float64_exponent x - 52)
      in of_int (round_half_even (x / q)) * q)"

definition fadd :: "rat \<Rightarrow> rat \<Rightarrow> rat" where
  "fadd x y = float64 (x + y)"

definition fsub :: "rat \<Rightarrow> rat \<Rightarrow> rat" where
  "fsub x y = float64 (x - y)"

definition fmul :: "rat \<Rightarrow> rat \<Rightarrow> rat" where
  "fmul x y = float64 (x * y)"

definition fdiv :: "rat \<Rightarrow> rat \<Rightarrow> rat" where
  "fdiv x y = float64 (x / y)"

text \<open>One call of \<open>drawSection\<close>: the rectangle handed to \<open>pdf.Rect\<close>, and the texts.\<close>

record drawn =
  rect_x :: rat
  rect_y :: rat
  rect_w :: rat
  rect_h :: rat
  title :: string
  content :: string

definition drawSection :: "rat \<Rightarrow> rat \<Rightarrow> rat \<Rightarrow> rat \<Rightarrow> string \<Rightarrow> string \<Rightarrow> drawn" where
  "drawSection x y w h t s =
     \<lparr>rect_x = x, rect_y = y, rect_w = w, rect_h = h, title = t, content = s\<rparr>"

text \<open>The calls of \<open>drawSection\<close> that \<open>exportToPDF\<close> makes, in their order.\<close>

definition exportToPDF_sections :: "Canvas \<Rightarrow> drawn list" where
  "exportToPDF_sections c =
     (let pageWidth = 420;
          pageHeight = 297;
          margin = 10;
          topHeight = fmul (fsub pageHeight (fmul 2 margin)) (float64 (6 / 10));
          bottomHeight = fmul (fsub pageHeight (fmul 2 margin)) (float64 (4 / 10));
          colWidth = fdiv (fsub pageWidth (fmul 2 margin)) 5;
          y = margin;
          s1 = drawSection margin y colWidth topHeight ''Key Partners'' (keyPartners c);
          x = fadd margin colWidth;
          s2 = drawSection x y colWidth (fdiv topHeight 2) ''Key Activities'' (keyActivities c);
          s3 = drawSection x (fadd y (fdiv topHeight 2)) colWidth (fdiv topHeight 2)
                 ''Key Resources'' (keyResources c);
          x = fadd x colWidth;
          s4 = drawSection x y colWidth topHeight ''Value Proposition'' (valueProposition c);
          x = fadd x colWidth;
          s5 = drawSection x y colWidth (fdiv topHeight 2) ''Customer Relationships''
                 (customerRel c);
          s6 = drawSection x (fadd y (fdiv topHeight 2)) colWidth (fdiv topHeight 2)
                 ''Channels'' (channels c);
          x = fadd x colWidth;
          s7 = drawSection x y colWidth topHeight ''Customer Segments'' (customerSegments c);
          y = fadd margin topHeight;
          s8 = drawSection margin y (fdiv (fsub pageWidth (fmul 2 margin)) 2) bottomHeight
                 ''Cost Structure'' (costStructure c);
          s9 = drawSection (fadd margin (fdiv (fsub pageWidth (fmul 2 margin)) 2)) y
                 (fdiv (fsub pageWidth (fmul 2 margin)) 2) bottomHeight
                 ''Revenue Streams'' (revenueStreams c)
      in [s1, s2, s3, s4, s5, s6, s7, s8, s9])"

text \<open>The file dialog that ends \<open>exportToPDF\<close>; the writer is what \<open>pdf.Output\<close> answers.\<close>

definition exportToPDF :: "writer picked \<Rightarrow> Canvas \<Rightarrow> Canvas" where
  "exportToPDF dlg c =
     (case dlg of
        DialogFailed err \<Rightarrow> notify (ShowError err) c
      | DialogCancelled \<Rightarrow> c
      | Picked w \<Rightarrow>
          (case w of
             Some err \<Rightarrow> notify (ShowError err) c
           | None \<Rightarrow>
               notify (ShowInformation ''Success'' ''PDF has been exported successfully'') c))"

text \<open>
  A rectangle covers the points from its left and top edge up to, and without, its right
  and bottom edge; the content area is the page without its margins.
\<close>

definition covers :: "drawn \<Rightarrow> rat \<Rightarrow> rat \<Rightarrow> bool" where
  "covers r px py =
     (rect_x r \<le> px \<and> px < rect_x r + rect_w r \<and> rect_y r \<le> py \<and> py < rect_y r + rect_h r)"

definition in_content_area :: "rat \<Rightarrow> rat \<Rightarrow> bool" where
  "in_content_area px py = (10 \<le> px \<and> px < 420 - 10 \<and> 10 \<le> py \<and> py < 297 - 10)"

definition area :: "drawn \<Rightarrow> rat" where
  "area r = rect_w r * rect_h r"

text \<open>The two band heights as \<open>exportToPDF\<close> computes them, and the content area's sides.\<close>

definition topHeight :: rat where
  "topHeight = fmul (fsub 297 (fmul 2 10)) (float64 (6 / 10))"

definition bottomHeight :: rat where
  "bottomHeight = fmul (fsub 297 (fmul 2 10)) (float64 (4 / 10))"

definition geometry :: "drawn \<Rightarrow> rat \<times> rat \<times> rat \<times> rat" where
  "geometry r = (rect_x r, rect_y r, rect_w r, rect_h r)"

section \<open>The handlers as one machine\<close>

text \<open>\<open>validateCanvas\<close> and the empty case of \<open>showVersionHistory\<close>.\<close>

definition validateCanvas :: "Canvas \<Rightarrow> Canvas" where
  "validateCanvas c =
     (let results = Validate NewBusinessValidator c
      in if length results > 0
         then notify (ShowInformation ''Validation Results''
                (foldl (\<lambda>message r.
                     message @ [CHR 0xE2, CHR 0x80, CHR 0xA2] @ '' '' @ Section r @ '': '' @
                     Message r @ [CHR 0x0A]) [] results)) c
         else notify (ShowInformation ''Validation Results'' ''All sections look good!'') c)"

definition showVersionHistory :: "Canvas \<Rightarrow> Canvas" where
  "showVersionHistory c =
     (if length (versions c) = 0
      then notify (ShowInformation ''Version History'' ''No previous versions found'') c
      else c)"

definition toggleTheme :: "Canvas \<Rightarrow> Canvas" where
  "toggleTheme c =
     (if currentTheme c = ''professional'' then c\<lparr>currentTheme := ''light''\<rparr>
      else c\<lparr>currentTheme := ''professional''\<rparr>)"

definition selectTheme :: "string \<Rightarrow> Canvas \<Rightarrow> Canvas" where
  "selectTheme selected c =
     (if selected = ''Professional (Dark)'' then c\<lparr>currentTheme := ''professional''\<rparr>
      else if selected = ''Light'' then c\<lparr>currentTheme := ''light''\<rparr>
      else c)"

text \<open>
  Every callback of the program that touches the session, with what the outside world
  hands to it: the text of an edit (typing, and the paste and cut shortcuts), the outcome
  of a file dialog, the row picked in the version list, the clock and the identifier of
  a ticker firing.
\<close>

datatype event =
  Edit entry string
  | Undo
  | Redo
  | SaveCanvas "writer picked"
  | LoadCanvas "reader picked"
  | ExportToPDF "writer picked"
  | ValidateCanvas
  | ShowVersionHistory
  | RestoreVersion nat
  | SetAutoSave bool
  | ToggleTheme
  | SelectTheme string
  | Tick int snapshot_reads

text \<open>
  One callback. \<open>None\<close> is the panic of \<open>c.versions[id]\<close> out of range, which ends the
  process.
\<close>

fun step :: "json_package \<Rightarrow> event \<Rightarrow> Canvas \<Rightarrow> Canvas option" where
  "step json (Edit e s) c = Some (setText e s c)"
| "step json Undo c = Some (undo c)"
| "step json Redo c = Some (redo c)"
| "step json (SaveCanvas dlg) c = Some (fst (saveCanvas json dlg c))"
| "step json (LoadCanvas dlg) c = Some (loadCanvas json dlg c)"
| "step json (ExportToPDF dlg) c = Some (exportToPDF dlg c)"
| "step json ValidateCanvas c = Some (validateCanvas c)"
| "step json ShowVersionHistory c = Some (showVersionHistory c)"
| "step json (RestoreVersion i) c =
     (if i < length (versions c) then Some (restoreVersion (versions c ! i) c) else None)"
| "step json (SetAutoSave checked) c = Some (c\<lparr>autoSave := checked\<rparr>)"
| "step json ToggleTheme c = Some (toggleTheme c)"
| "step json (SelectTheme selected) c = Some (selectTheme selected c)"
| "step json (Tick now env) c = Some (autoSaveTick now env c)"

fun run :: "json_package \<Rightarrow> event list \<Rightarrow> Canvas \<Rightarrow> Canvas option" where
  "run json [] c = Some c"
| "run json (ev # evs) c =
     (case step json ev c of None \<Rightarrow> None | Some c' \<Rightarrow> run json evs c')"

text \<open>A run of snapshots, one after the other.\<close>

fun snapshots :: "snapshot_reads list \<Rightarrow> Canvas \<Rightarrow> Canvas" where
  "snapshots [] c = c"
| "snapshots (env # envs) c = snapshots envs (saveCurrentVersion env c)"


text \<open>
  The clock does not run backwards: the readings of a run, in the order in which they
  are taken, never decrease, starting from the reading \<open>t\<close>.
\<close>

fun clock_ok :: "int \<Rightarrow> event list \<Rightarrow> bool" where
  "clock_ok t [] = True"
| "clock_ok t (Tick now env # evs) =
     (t \<le> now \<and> now \<le> time_Now_1 env \<and> time_Now_1 env \<le> time_Now_2 env \<and>
      clock_ok (time_Now_2 env) evs)"
| "clock_ok t (ev # evs) = clock_ok t evs"

text \<open>Versions whose timestamps lie at least the autosave interval apart, each from the next.\<close>

definition spaced :: "Version list \<Rightarrow> bool" where
  "spaced vs = sorted_wrt (\<lambda>v w. Timestamp v + 5 * Minute \<le> Timestamp w) vs"

definition in_window :: "int \<Rightarrow> Version \<Rightarrow> bool" where
  "in_window a v = (a \<le> Timestamp v \<and> Timestamp v < a + 5 * Minute)"

section \<open>Sample sessions\<close>

definition sample_A :: CanvasData where
  "sample_A =
     \<lparr>KeyPartners = ''suppliers'', KeyActivities = ''baking'', KeyResources = ''oven'',
      ValueProposition = ''fresh bread'', CustomerRel = ''personal'', Channels = ''shop'',
      CustomerSegments = ''neighbours'', CostStructure = ''flour'', RevenueStreams = ''sales''\<rparr>"

definition sample_B :: CanvasData where
  "sample_B =
     \<lparr>KeyPartners = ''mills'', KeyActivities = [], KeyResources = ''two ovens'',
      ValueProposition = ''bread and cake'', CustomerRel = [], Channels = ''delivery'',
      CustomerSegments = ''cafes'', CostStructure = ''rent'', RevenueStreams = ''orders''\<rparr>"

definition fresh_canvas :: Canvas where
  "fresh_canvas =
     \<lparr>keyPartners = [], keyActivities = [], keyResources = [], valueProposition = [],
      customerRel = [], channels = [], customerSegments = [], costStructure = [],
      revenueStreams = [], currentTheme = ''professional'', autoSave = True, lastSaved = 0,
      undoStack = [], redoStack = [], versions = [], dialogs = []\<rparr>"

definition sample_session :: Canvas where
  "sample_session = setTexts sample_B (checkpoint (setTexts sample_A fresh_canvas))"



text \<open>A document that stops before its closing brace, and one with an unknown key and one field.\<close>

definition malformed_document :: string where
  \<open>malformed_document = ''{"keyPartners": "suppliers"''\<close>

definition sparse_document :: string where
  \<open>sparse_document = ''{"note": [1, true], "channels": "web"}''\<close>

text \<open>
  Three firings of the ticker: the first long after the zero time, the second ten
  seconds later, the third five minutes and one second after the first; and ten
  thousand readings with identifiers of different lengths.
\<close>

definition reads_1 :: snapshot_reads where
  "reads_1 =
     \<lparr>uuid_New = ''id-1'', time_Now_1 = 63000000000000000001, time_Now_2 = 63000000000000000002\<rparr>"

definition reads_2 :: snapshot_reads where
  "reads_2 =
     \<lparr>uuid_New = ''id-2'', time_Now_1 = 63000000010000000001, time_Now_2 = 63000000010000000002\<rparr>"

definition reads_3 :: snapshot_reads where
  "reads_3 =
     \<lparr>uuid_New = ''id-3'', time_Now_1 = 63000000301000000001, time_Now_2 = 63000000301000000002\<rparr>"

definition three_ticks :: "event list" where
  "three_ticks =
     [Tick 63000000000000000000 reads_1, Tick 63000000010000000000 reads_2,
      Tick 63000000301000000000 reads_3]"




section \<open>Validator: results\<close>

lemma Validate_loop_append:
  "Validate_loop rs c acc = acc @ Validate_loop rs c []"
proof (induction rs arbitrary: acc)
  case Nil
  show ?case by simp
next
  case (Cons r rs)
  show ?case
  proof (cases "rule_Check r c")
    case True
    then show ?thesis using Cons.IH [of acc] by simp
  next
    case False
    then show ?thesis
      using Cons.IH [of "acc @ [\<lparr>Section = rule_Section r, Message = rule_Message r\<rparr>]"]
        Cons.IH [of "[\<lparr>Section = rule_Section r, Message = rule_Message r\<rparr>]"]
      by simp
  qed
qed

lemma Validate_bytes:
  "Validate NewBusinessValidator c =
     byte_fails 100 (valueProposition c) ''Value Proposition''
       ''Consider adding more detail about your value proposition'' @
     byte_fails 50 (customerSegments c) ''Customer Segments''
       ''Customer segments need more specific details'' @
     byte_fails 50 (keyActivities c) ''Key Activities''
       ''Add more details about your key activities'' @
     byte_fails 50 (costStructure c) ''Cost Structure''
       ''Elaborate on your cost structure'' @
     byte_fails 50 (revenueStreams c) ''Revenue Streams''
       ''Provide more information about revenue streams''"
  unfolding Validate_def NewBusinessValidator_def byte_fails_def
  by (simp add: Validate_loop_append [of _ _ "[x]" for x] not_le)

lemma characterCount_accented:
  "characterCount (concat (replicate n [CHR 0xC3, CHR 0xA9])) = n"
  by (induction n) (simp_all add: characterCount_def isContinuationByte_def)

lemma characterCount_ascii:
  "characterCount (replicate n (CHR ''a'')) = n"
  by (induction n) (simp_all add: characterCount_def isContinuationByte_def)

lemma length_accented:
  "length (concat (replicate n [CHR 0xC3, CHR 0xA9])) = 2 * n"
  by (induction n) simp_all

text \<open>
  Claim C1, as the code has it. For every canvas, \<open>Validate\<close> answers one result per
  failing rule, in the order Value Proposition, Customer Segments, Key Activities, Cost
  Structure, Revenue Streams; the Value Proposition rule fails iff the text has fewer
  than 100 bytes (Go's \<open>len\<close>), each of the four others iff its text has fewer than 50
  bytes; the result is empty iff all five thresholds are met; and the four sections
  without a rule never appear.
\<close>

theorem Validate_counts_bytes:
  "Validate NewBusinessValidator c =
     byte_fails 100 (valueProposition c) ''Value Proposition''
       ''Consider adding more detail about your value proposition'' @
     byte_fails 50 (customerSegments c) ''Customer Segments''
       ''Customer segments need more specific details'' @
     byte_fails 50 (keyActivities c) ''Key Activities''
       ''Add more details about your key activities'' @
     byte_fails 50 (costStructure c) ''Cost Structure''
       ''Elaborate on your cost structure'' @
     byte_fails 50 (revenueStreams c) ''Revenue Streams''
       ''Provide more information about revenue streams''
   \<and> (Validate NewBusinessValidator c = [] \<longleftrightarrow>
        100 \<le> length (valueProposition c) \<and> 50 \<le> length (customerSegments c) \<and>
        50 \<le> length (keyActivities c) \<and> 50 \<le> length (costStructure c) \<and>
        50 \<le> length (revenueStreams c))
   \<and> set (map Section (Validate NewBusinessValidator c)) \<inter>
        {''Key Partners'', ''Key Resources'', ''Customer Relationships'', ''Channels''} = {}"
  unfolding Validate_bytes byte_fails_def by auto

text \<open>
  Claim C1 as stated, with character counts, fails: a value proposition of fifty
  two-byte characters has 50 characters, fewer than 100, and yet 100 bytes, so
  \<open>Validate\<close> reports nothing where the rule over characters reports the section.
\<close>

theorem Validate_characters_counterexample:
  "characterCount (valueProposition accented_canvas) = 50
   \<and> length (valueProposition accented_canvas) = 100
   \<and> Validate NewBusinessValidator accented_canvas = []
   \<and> spec_Validate accented_canvas =
        [\<lparr>Section = ''Value Proposition'',
          Message = ''Consider adding more detail about your value proposition''\<rparr>]"
  by (simp add: Validate_bytes byte_fails_def spec_Validate_def spec_fails_def
      accented_canvas_def characterCount_accented characterCount_ascii length_accented)

section \<open>History: undo and redo\<close>

lemma edits_stacks:
  "undoStack (edits es c) = undoStack c \<and> redoStack (edits es c) = redoStack c"
proof (induction es arbitrary: c)
  case Nil
  show ?case by simp
next
  case (Cons p es)
  obtain e s where p: "p = (e, s)" by (cases p)
  show ?case using Cons.IH [of "setText e s c"] p by (cases e) simp_all
qed

text \<open>
  Claim C2. With an empty undo stack \<open>undo\<close> changes nothing at all. Otherwise, with
  \<open>s\<close> on top of the undo stack, it pushes the live snapshot onto the redo stack, takes
  exactly \<open>s\<close> off the undo stack and makes \<open>s\<close> the live record; nothing else of the
  session changes. \<open>redo\<close> is the same with the two stacks exchanged, \<open>t\<close> being the top
  of the redo stack.
\<close>

theorem undo_redo_stacks:
  "(undoStack c = [] \<longrightarrow> undo c = c)
   \<and> (undoStack c = us @ [s] \<longrightarrow>
        undo c = setTexts s (c\<lparr>undoStack := us, redoStack := redoStack c @ [getCurrentData c]\<rparr>)
        \<and> getCurrentData (undo c) = s)
   \<and> (redoStack c = [] \<longrightarrow> redo c = c)
   \<and> (redoStack c = rs @ [t] \<longrightarrow>
        redo c = setTexts t (c\<lparr>redoStack := rs, undoStack := undoStack c @ [getCurrentData c]\<rparr>)
        \<and> getCurrentData (redo c) = t)"
  by (simp add: undo_def redo_def Let_def setTexts_def getCurrentData_def)

theorem undo_redo_stacks_witness:
  "undoStack fresh_canvas = [] \<and> undo fresh_canvas = fresh_canvas
   \<and> redoStack fresh_canvas = [] \<and> redo fresh_canvas = fresh_canvas
   \<and> undoStack sample_session = [] @ [sample_A]
   \<and> getCurrentData (undo sample_session) = sample_A
   \<and> undoStack (undo sample_session) = []
   \<and> redoStack (undo sample_session) = [] @ [sample_B]
   \<and> getCurrentData (redo (undo sample_session)) = sample_B
   \<and> redoStack (redo (undo sample_session)) = []
   \<and> undoStack (redo (undo sample_session)) = [sample_A]"
proof -
  have u: "undoStack sample_session = [] @ [sample_A]"
    and cur: "getCurrentData sample_session = sample_B"
    and r0: "redoStack sample_session = []"
    by (simp_all add: sample_session_def setTexts_def checkpoint_def fresh_canvas_def
        getCurrentData_def sample_A_def sample_B_def)
  have e: "undoStack fresh_canvas = []" "redoStack fresh_canvas = []"
    by (simp_all add: fresh_canvas_def)
  note first = undo_redo_stacks [of sample_session "[]" sample_A]
  have undone: "undo sample_session =
      setTexts sample_A (sample_session\<lparr>undoStack := [], redoStack := [] @ [sample_B]\<rparr>)"
    using first u cur r0 by simp
  have r: "redoStack (undo sample_session) = [] @ [sample_B]"
    and cur': "getCurrentData (undo sample_session) = sample_A"
    and u': "undoStack (undo sample_session) = []"
    unfolding undone by (simp_all add: setTexts_def getCurrentData_def sample_A_def)
  note second = undo_redo_stacks [of "undo sample_session" _ _ "[]" sample_B]
  have redone: "redo (undo sample_session) =
      setTexts sample_B (undo sample_session\<lparr>redoStack := [], undoStack := [] @ [sample_A]\<rparr>)"
    using second r cur' u' by simp
  have "getCurrentData (redo (undo sample_session)) = sample_B"
    "redoStack (redo (undo sample_session)) = []"
    "undoStack (redo (undo sample_session)) = [sample_A]"
    unfolding redone by (simp_all add: setTexts_def getCurrentData_def sample_B_def)
  then show ?thesis
    using undo_redo_stacks [of fresh_canvas] e u r cur' u' by simp
qed

text \<open>
  Claim C3. Start with the live state \<open>A\<close> of any session \<open>c\<close>; checkpoint it and change
  the live state to \<open>B\<close>, by any run of edits or by setting all nine texts. Then \<open>undo\<close>
  brings \<open>A\<close> back as the live state, and \<open>redo\<close> right after it brings \<open>B\<close> back; the
  two stacks are then as they were before the undo.
\<close>

theorem undo_redo_round_trip:
  "getCurrentData (undo (edits es (checkpoint c))) = getCurrentData c
   \<and> getCurrentData (redo (undo (edits es (checkpoint c)))) =
       getCurrentData (edits es (checkpoint c))
   \<and> undoStack (redo (undo (edits es (checkpoint c)))) = undoStack c @ [getCurrentData c]
   \<and> redoStack (redo (undo (edits es (checkpoint c)))) = redoStack c
   \<and> getCurrentData (undo (setTexts B (checkpoint c))) = getCurrentData c
   \<and> getCurrentData (redo (undo (setTexts B (checkpoint c)))) = B"
proof -
  let ?c2 = "edits es (checkpoint c)"
  have st: "undoStack ?c2 = undoStack c @ [getCurrentData c]" "redoStack ?c2 = redoStack c"
    using edits_stacks [of es "checkpoint c"] by (simp_all add: checkpoint_def)
  have "getCurrentData (undo ?c2) = getCurrentData c"
    "getCurrentData (redo (undo ?c2)) = getCurrentData ?c2"
    "undoStack (redo (undo ?c2)) = undoStack c @ [getCurrentData c]"
    "redoStack (redo (undo ?c2)) = redoStack c"
    using st by (simp_all add: undo_def redo_def Let_def setTexts_def getCurrentData_def)
  moreover have "getCurrentData (undo (setTexts B (checkpoint c))) = getCurrentData c"
    "getCurrentData (redo (undo (setTexts B (checkpoint c)))) = B"
    by (simp_all add: undo_def redo_def Let_def setTexts_def getCurrentData_def checkpoint_def)
  ultimately show ?thesis by simp
qed

section \<open>\<open>encoding/json\<close>: what is written is read back\<close>










lemma char_of_of_char_eq: "n = (of_char c :: nat) \<Longrightarrow> char_of n = c"
  by simp









lemma emit_Some [simp]: "emit out (Some (str, rest)) = Some (out @ str, rest)"
  by (simp add: emit_def)



















lemmas json_eval =
  is_space_def is_digit_def number_def integer_def fraction_def exponent_def digits1_def
  cons_token_def simple_escape_def beginValue_def maxNestingDepth_def emit_def
  parse_def RuneError_def

lemma parse_malformed: "parse malformed_document = None"
  by (simp add: malformed_document_def json_eval)

lemma tokenize_sparse:
  "tokenize sparse_document =
     Some [LBrace, TString ''note'', Colon, LBracket, TNumber, Comma, TTrue, RBracket, Comma,
       TString ''channels'', Colon, TString ''web'', RBrace]"
  by (simp add: sparse_document_def json_eval)

lemma parse_sparse:
  "parse sparse_document =
     Some (JObject [(''note'', JArray [JNumber, JBool True]), (''channels'', JString ''web'')])"
  by (simp add: parse_def tokenize_sparse json_eval)



lemma Unmarshal_sparse:
  "Unmarshal_CanvasData sparse_document = Inr (zero_CanvasData\<lparr>Channels := ''web''\<rparr>)"
  by (simp add: Unmarshal_CanvasData_def parse_sparse decode_def lookupField_def typeFields_def
      storeString_def saveError_def zero_CanvasData_def)




section \<open>Saving and loading\<close>

lemma getCurrentData_notify [simp]: "getCurrentData (notify n c) = getCurrentData c"
  by (simp add: notify_def getCurrentData_def)

lemma getCurrentData_checkpoint [simp]: "getCurrentData (checkpoint c) = getCurrentData c"
  by (simp add: checkpoint_def getCurrentData_def)

lemma getCurrentData_setTexts [simp]: "getCurrentData (setTexts d c) = d"
  by (simp add: setTexts_def getCurrentData_def)

lemma stacks_notify [simp]:
  "undoStack (notify n c) = undoStack c" "redoStack (notify n c) = redoStack c"
  "versions (notify n c) = versions c" "lastSaved (notify n c) = lastSaved c"
  "autoSave (notify n c) = autoSave c" "dialogs (notify n c) = dialogs c @ [n]"
  by (simp_all add: notify_def)

lemma stacks_setTexts [simp]:
  "undoStack (setTexts d c) = undoStack c" "redoStack (setTexts d c) = redoStack c"
  "versions (setTexts d c) = versions c" "lastSaved (setTexts d c) = lastSaved c"
  "autoSave (setTexts d c) = autoSave c" "dialogs (setTexts d c) = dialogs c"
  by (simp_all add: setTexts_def)

lemma stacks_checkpoint [simp]:
  "undoStack (checkpoint c) = undoStack c @ [getCurrentData c]"
  "redoStack (checkpoint c) = redoStack c"
  "versions (checkpoint c) = versions c" "lastSaved (checkpoint c) = lastSaved c"
  "autoSave (checkpoint c) = autoSave c" "dialogs (checkpoint c) = dialogs c"
  by (simp_all add: checkpoint_def)

lemma stacks_setText [simp]:
  "undoStack (setText e s c) = undoStack c" "redoStack (setText e s c) = redoStack c"
  "versions (setText e s c) = versions c" "lastSaved (setText e s c) = lastSaved c"
  "autoSave (setText e s c) = autoSave c" "dialogs (setText e s c) = dialogs c"
  by (cases e; simp)+

lemma saveCanvas_frame:
  "redoStack (fst (saveCanvas json dlg c)) = redoStack c"
  "versions (fst (saveCanvas json dlg c)) = versions c"
  "lastSaved (fst (saveCanvas json dlg c)) = lastSaved c"
  "autoSave (fst (saveCanvas json dlg c)) = autoSave c"
  "getCurrentData (fst (saveCanvas json dlg c)) = getCurrentData c"
  by (simp_all add: saveCanvas_def Let_def split: picked.splits sum.splits option.splits)

lemma loadCanvas_frame:
  "redoStack (loadCanvas json dlg c) = redoStack c"
  "versions (loadCanvas json dlg c) = versions c"
  "lastSaved (loadCanvas json dlg c) = lastSaved c"
  "autoSave (loadCanvas json dlg c) = autoSave c"
  by (simp_all add: loadCanvas_def Let_def split: picked.splits sum.splits)

lemma undo_frame:
  "versions (undo c) = versions c" "lastSaved (undo c) = lastSaved c"
  "autoSave (undo c) = autoSave c"
  by (simp_all add: undo_def Let_def)

lemma redo_frame:
  "versions (redo c) = versions c" "lastSaved (redo c) = lastSaved c"
  "autoSave (redo c) = autoSave c"
  by (simp_all add: redo_def Let_def)

lemma undo_redoStack:
  "redoStack (undo c) = redoStack c \<or> redoStack (undo c) = redoStack c @ [getCurrentData c]"
  by (simp add: undo_def Let_def)

lemma redo_redoStack:
  "redoStack (redo c) = redoStack c
   \<or> redoStack c = redoStack (redo c) @ [getCurrentData (redo c)]"
proof (cases "redoStack c" rule: rev_cases)
  case Nil
  then show ?thesis by (simp add: redo_def)
next
  case (snoc rs t)
  then show ?thesis by (simp add: redo_def Let_def)
qed

lemma small_handlers_frame [simp]:
  "redoStack (exportToPDF dlg c) = redoStack c" "versions (exportToPDF dlg c) = versions c"
  "lastSaved (exportToPDF dlg c) = lastSaved c"
  "redoStack (validateCanvas c) = redoStack c" "versions (validateCanvas c) = versions c"
  "lastSaved (validateCanvas c) = lastSaved c"
  "redoStack (showVersionHistory c) = redoStack c"
  "versions (showVersionHistory c) = versions c"
  "lastSaved (showVersionHistory c) = lastSaved c"
  "redoStack (restoreVersion v c) = redoStack c" "versions (restoreVersion v c) = versions c"
  "lastSaved (restoreVersion v c) = lastSaved c"
  "redoStack (toggleTheme c) = redoStack c" "versions (toggleTheme c) = versions c"
  "lastSaved (toggleTheme c) = lastSaved c"
  "redoStack (selectTheme n c) = redoStack c" "versions (selectTheme n c) = versions c"
  "lastSaved (selectTheme n c) = lastSaved c"
  "redoStack (autoSaveTick now env c) = redoStack c"
  by (simp_all add: exportToPDF_def validateCanvas_def showVersionHistory_def
      restoreVersion_def toggleTheme_def selectTheme_def autoSaveTick_def
      saveCurrentVersion_def Let_def split: picked.splits option.splits)

lemma step_redoStack:
  assumes "step json ev c = Some c'"
  shows "redoStack c' = redoStack c
    \<or> (ev = Undo \<and> redoStack c' = redoStack c @ [getCurrentData c])
    \<or> (ev = Redo \<and> redoStack c = redoStack c' @ [getCurrentData c'])"
proof (cases ev)
  case Undo
  then show ?thesis using assms undo_redoStack [of c] by auto
next
  case Redo
  then show ?thesis using assms redo_redoStack [of c] by auto
next
  case (RestoreVersion i)
  then show ?thesis using assms by (auto split: if_splits)
qed (use assms in \<open>auto simp: saveCanvas_frame loadCanvas_frame\<close>)

text \<open>
  Claim C4, as the code has it. An edit never touches the redo stack, and neither do
  saving and loading: whatever the dialog, the file and the document, \<open>saveCanvas\<close> and
  \<open>loadCanvas\<close> leave the redo stack as it was (they push onto the undo stack only).
  Of all the callbacks only \<open>undo\<close> changes the redo stack, by one push, and \<open>redo\<close>,
  by one pop: nothing in the program clears it.
\<close>

theorem redoStack_kept_by_edit_save_load:
  "redoStack (setText e s c) = redoStack c
   \<and> redoStack (edits es c) = redoStack c
   \<and> redoStack (fst (saveCanvas json w c)) = redoStack c
   \<and> redoStack (loadCanvas json r c) = redoStack c
   \<and> (step json ev c = Some c' \<longrightarrow>
        redoStack c' = redoStack c
        \<or> (ev = Undo \<and> redoStack c' = redoStack c @ [getCurrentData c])
        \<or> (ev = Redo \<and> redoStack c = redoStack c' @ [getCurrentData c']))"
  using edits_stacks [of es c] step_redoStack [of json ev c c']
  by (simp add: saveCanvas_frame loadCanvas_frame)

lemma undone_fields:
  "redoStack (undo sample_session) = [sample_B]" "undoStack (undo sample_session) = []"
  "getCurrentData (undo sample_session) = sample_A" "dialogs (undo sample_session) = []"
  by (simp_all add: undo_def Let_def sample_session_def fresh_canvas_def)

theorem redoStack_kept_by_edit_save_load_witness:
  "step encoding_json (SaveCanvas (Picked None)) (undo sample_session) =
     Some (fst (saveCanvas encoding_json (Picked None) (undo sample_session)))
   \<and> redoStack (undo sample_session) = [sample_B]
   \<and> redoStack (fst (saveCanvas encoding_json (Picked None) (undo sample_session))) = [sample_B]"
  using redoStack_kept_by_edit_save_load [of _ _ "undo sample_session" _ encoding_json
      "Picked None" _ "SaveCanvas (Picked None)"
      "fst (saveCanvas encoding_json (Picked None) (undo sample_session))"]
  by (simp add: undone_fields)

text \<open>
  Claim C4 as stated has save and load clear the redo stack. They do not: with
  \<open>sample_B\<close> on the redo stack, a save that succeeds and a load that succeeds both
  leave it there.
\<close>

theorem save_load_clear_redo_counterexample:
  "redoStack (undo sample_session) = [sample_B]
   \<and> redoStack (fst (saveCanvas encoding_json (Picked None) (undo sample_session))) = [sample_B]
   \<and> dialogs (fst (saveCanvas encoding_json (Picked None) (undo sample_session))) =
       [ShowInformation ''Success'' ''Canvas saved successfully'']
   \<and> redoStack (loadCanvas encoding_json (Picked (Inr sparse_document)) (undo sample_session)) =
       [sample_B]
   \<and> dialogs (loadCanvas encoding_json (Picked (Inr sparse_document)) (undo sample_session)) =
       [ShowInformation ''Success'' ''Canvas loaded successfully'']"
  by (simp add: saveCanvas_def loadCanvas_def Let_def encoding_json_def Unmarshal_sparse
      undone_fields)

text \<open>
  Claim C5. When the file is chosen and reading it fails, or the document does not
  decode, \<open>loadCanvas\<close> shows that error and stops: each of the nine entries holds the
  text it held before. The same holds when the dialog itself fails. A document that is
  not JSON makes \<open>Unmarshal\<close> fail.
\<close>

theorem loadCanvas_failure_keeps_live_record:
  "((dlg = DialogFailed err \<or> dlg = Picked (Inl err)
      \<or> (dlg = Picked (Inr bytes) \<and> Unmarshal json bytes = Inl err)) \<longrightarrow>
       keyPartners (loadCanvas json dlg c) = keyPartners c
     \<and> keyActivities (loadCanvas json dlg c) = keyActivities c
     \<and> keyResources (loadCanvas json dlg c) = keyResources c
     \<and> valueProposition (loadCanvas json dlg c) = valueProposition c
     \<and> customerRel (loadCanvas json dlg c) = customerRel c
     \<and> channels (loadCanvas json dlg c) = channels c
     \<and> customerSegments (loadCanvas json dlg c) = customerSegments c
     \<and> costStructure (loadCanvas json dlg c) = costStructure c
     \<and> revenueStreams (loadCanvas json dlg c) = revenueStreams c
     \<and> dialogs (loadCanvas json dlg c) = dialogs c @ [ShowError err])
   \<and> (parse bytes = None \<longrightarrow> Unmarshal encoding_json bytes = Inl ''json: syntax error'')"
  by (auto simp: loadCanvas_def Let_def notify_def checkpoint_def encoding_json_def
      Unmarshal_CanvasData_def)

theorem loadCanvas_failure_keeps_live_record_witness:
  "parse malformed_document = None
   \<and> Unmarshal encoding_json malformed_document = Inl ''json: syntax error''
   \<and> getCurrentData (loadCanvas encoding_json (Picked (Inr malformed_document)) sample_session) =
       sample_B
   \<and> getCurrentData sample_session = sample_B
   \<and> dialogs (loadCanvas encoding_json (Picked (Inr malformed_document)) sample_session) =
       [ShowError ''json: syntax error'']
   \<and> getCurrentData (loadCanvas encoding_json (Picked (Inl ''read failed'')) sample_session) =
       sample_B
   \<and> dialogs (loadCanvas encoding_json (Picked (Inl ''read failed'')) sample_session) =
       [ShowError ''read failed'']"
proof -
  have bad: "Unmarshal encoding_json malformed_document = Inl ''json: syntax error''"
    using loadCanvas_failure_keeps_live_record [of _ _ malformed_document] parse_malformed
    by simp
  have cur: "getCurrentData sample_session = sample_B" "dialogs sample_session = []"
    by (simp_all add: sample_session_def fresh_canvas_def)
  note a = loadCanvas_failure_keeps_live_record
    [of "Picked (Inr malformed_document)" "''json: syntax error''" malformed_document
      encoding_json sample_session]
  note b = loadCanvas_failure_keeps_live_record
    [of "Picked (Inl ''read failed'')" "''read failed''" _ encoding_json sample_session]
  show ?thesis
    using a b bad cur parse_malformed by (simp add: getCurrentData_def)
qed

text \<open>
  Claim C10. Once a file is chosen, \<open>loadCanvas\<close> and \<open>saveCanvas\<close> push the live
  snapshot onto the undo stack before they read, decode, encode or write: whatever
  those steps answer, the undo stack has grown by exactly that one entry and the redo
  stack is as it was. A save never changes the live record, and a load that fails does
  not either, so the entry equals the live record. When the dialog is cancelled nothing
  changes, and when the dialog fails neither stack changes.
\<close>

theorem checkpoint_precedes_fallible_steps:
  "undoStack (loadCanvas json (Picked r) c) = undoStack c @ [getCurrentData c]
   \<and> redoStack (loadCanvas json (Picked r) c) = redoStack c
   \<and> undoStack (fst (saveCanvas json (Picked w) c)) = undoStack c @ [getCurrentData c]
   \<and> redoStack (fst (saveCanvas json (Picked w) c)) = redoStack c
   \<and> getCurrentData (fst (saveCanvas json (Picked w) c)) = getCurrentData c
   \<and> ((r = Inl err \<or> (r = Inr bytes \<and> Unmarshal json bytes = Inl err)) \<longrightarrow>
        getCurrentData (loadCanvas json (Picked r) c) = getCurrentData c
        \<and> dialogs (loadCanvas json (Picked r) c) = dialogs c @ [ShowError err])
   \<and> ((MarshalIndent json (getCurrentData c) = Inl err
        \<or> (MarshalIndent json (getCurrentData c) = Inr bytes \<and> w = Some err)) \<longrightarrow>
        dialogs (fst (saveCanvas json (Picked w) c)) = dialogs c @ [ShowError err])
   \<and> loadCanvas json DialogCancelled c = c
   \<and> saveCanvas json DialogCancelled c = (c, None)
   \<and> undoStack (loadCanvas json (DialogFailed err) c) = undoStack c
   \<and> redoStack (loadCanvas json (DialogFailed err) c) = redoStack c
   \<and> undoStack (fst (saveCanvas json (DialogFailed err) c)) = undoStack c
   \<and> redoStack (fst (saveCanvas json (DialogFailed err) c)) = redoStack c"
  by (auto simp: loadCanvas_def saveCanvas_def Let_def split: sum.splits option.splits)

theorem checkpoint_precedes_fallible_steps_witness:
  "Unmarshal encoding_json malformed_document = Inl ''json: syntax error''
   \<and> undoStack sample_session = [sample_A]
   \<and> undoStack (loadCanvas encoding_json (Picked (Inr malformed_document)) sample_session) =
       [sample_A, sample_B]
   \<and> getCurrentData (loadCanvas encoding_json (Picked (Inr malformed_document)) sample_session) =
       sample_B
   \<and> MarshalIndent encoding_json (getCurrentData sample_session) =
       Inr (MarshalIndent_CanvasData sample_B)
   \<and> undoStack (fst (saveCanvas encoding_json (Picked (Some ''disk full'')) sample_session)) =
       [sample_A, sample_B]
   \<and> dialogs (fst (saveCanvas encoding_json (Picked (Some ''disk full'')) sample_session)) =
       [ShowError ''disk full'']"
proof -
  have bad: "Unmarshal encoding_json malformed_document = Inl ''json: syntax error''"
    by (simp add: encoding_json_def Unmarshal_CanvasData_def parse_malformed)
  have cur: "getCurrentData sample_session = sample_B" "dialogs sample_session = []"
    "undoStack sample_session = [sample_A]"
    by (simp_all add: sample_session_def fresh_canvas_def)
  have enc: "MarshalIndent encoding_json (getCurrentData sample_session) =
      Inr (MarshalIndent_CanvasData sample_B)"
    by (simp add: encoding_json_def cur)
  note a = checkpoint_precedes_fallible_steps
    [of encoding_json "Inr malformed_document" sample_session "Some ''disk full''"
      "''json: syntax error''" malformed_document]
  note b = checkpoint_precedes_fallible_steps
    [of encoding_json "Inr malformed_document" sample_session "Some ''disk full''"
      "''disk full''" "MarshalIndent_CanvasData sample_B"]
  show ?thesis
    using a b bad cur enc by simp
qed




section \<open>Version store\<close>

lemma saveCurrentVersion_versions:
  "versions (saveCurrentVersion env c) =
     versions c @ [\<lparr>ID = uuid_New env, Timestamp = time_Now_1 env,
                    Data = getCurrentData c, Comments = []\<rparr>]"
  "lastSaved (saveCurrentVersion env c) = time_Now_2 env"
  "getCurrentData (saveCurrentVersion env c) = getCurrentData c"
  "autoSave (saveCurrentVersion env c) = autoSave c"
  by (simp_all add: saveCurrentVersion_def Let_def getCurrentData_def)






lemma run_three_ticks:
  "run encoding_json three_ticks fresh_canvas = Some (snapshots [reads_1, reads_3] fresh_canvas)"
  by (simp add: three_ticks_def autoSaveTick_def time_Since_def time_Sub_def maxDuration_def
      minDuration_def Minute_def fresh_canvas_def saveCurrentVersion_def Let_def reads_1_def
      reads_2_def reads_3_def)




section \<open>Autosave\<close>

lemma time_Since_interval:
  "5 * Minute \<le> time_Since now t \<longleftrightarrow> 5 * Minute \<le> now - t"
  by (auto simp: time_Since_def time_Sub_def Let_def maxDuration_def minDuration_def Minute_def)

lemma step_store:
  assumes "step json ev c = Some c'"
  shows "(versions c' = versions c \<and> lastSaved c' = lastSaved c)
    \<or> (\<exists>now env. ev = Tick now env \<and> autoSave c \<and> 5 * Minute \<le> now - lastSaved c
          \<and> c' = saveCurrentVersion env c)"
proof (cases ev)
  case (RestoreVersion i)
  then show ?thesis using assms by (auto split: if_splits)
next
  case (Tick now env)
  then show ?thesis using assms
    by (auto simp: autoSaveTick_def time_Since_interval split: if_splits)
next
  case (SetAutoSave b)
  then show ?thesis using assms by auto
qed (use assms in \<open>auto simp: saveCanvas_frame loadCanvas_frame undo_frame redo_frame\<close>)

lemma clock_ok_mono: "clock_ok t evs \<Longrightarrow> t' \<le> t \<Longrightarrow> clock_ok t' evs"
proof (induction evs arbitrary: t t')
  case Nil
  show ?case by simp
next
  case (Cons ev evs)
  then show ?case by (cases ev) auto
qed

lemma spaced_snoc:
  assumes "spaced vs" "list_all (\<lambda>v. Timestamp v + 5 * Minute \<le> Timestamp w) vs"
  shows "spaced (vs @ [w])"
  using assms by (simp add: spaced_def sorted_wrt_append list_all_iff)

lemma spaced_window: "spaced vs \<Longrightarrow> length (filter (in_window a) vs) \<le> 1"
proof (induction vs)
  case Nil
  show ?case by simp
next
  case (Cons v vs)
  then have sp: "spaced vs" and later: "\<forall>w\<in>set vs. Timestamp v + 5 * Minute \<le> Timestamp w"
    by (simp_all add: spaced_def)
  show ?case
  proof (cases "in_window a v")
    case True
    then have "\<forall>w\<in>set vs. \<not> in_window a w"
      using later by (auto simp: in_window_def)
    then have "filter (in_window a) vs = []" by (simp add: filter_empty_conv)
    then show ?thesis using True by simp
  next
    case False
    then show ?thesis using Cons.IH [OF sp] by simp
  qed
qed

lemma run_spaced:
  assumes "run json evs c = Some c'" "clock_ok t evs" "lastSaved c \<le> t"
    "list_all (\<lambda>v. Timestamp v \<le> lastSaved c) (versions c)" "spaced (versions c)"
  shows "spaced (versions c')"
  using assms
proof (induction evs arbitrary: c t)
  case Nil
  then show ?case by simp
next
  case (Cons ev evs)
  from Cons.prems(1) obtain c1 where c1: "step json ev c = Some c1"
    and rest: "run json evs c1 = Some c'"
    by (auto split: option.splits)
  from step_store [OF c1] show ?case
  proof
    assume same: "versions c1 = versions c \<and> lastSaved c1 = lastSaved c"
    have "\<exists>t'. t \<le> t' \<and> clock_ok t' evs"
    proof (cases ev)
      case (Tick now env)
      then have "t \<le> time_Now_2 env" "clock_ok (time_Now_2 env) evs"
        using Cons.prems(2) by auto
      then show ?thesis by blast
    qed (use Cons.prems(2) in auto)
    then obtain t' where t': "t \<le> t'" "clock_ok t' evs" by blast
    show ?thesis
      using Cons.IH [OF rest t'(2)] same Cons.prems(3-5) t'(1) by simp
  next
    assume "\<exists>now env. ev = Tick now env \<and> autoSave c \<and> 5 * Minute \<le> now - lastSaved c
          \<and> c1 = saveCurrentVersion env c"
    then obtain now env where ev: "ev = Tick now env"
      and due: "5 * Minute \<le> now - lastSaved c" and c1': "c1 = saveCurrentVersion env c"
      by blast
    have clk: "t \<le> now" "now \<le> time_Now_1 env" "time_Now_1 env \<le> time_Now_2 env"
      "clock_ok (time_Now_2 env) evs"
      using Cons.prems(2) ev by simp_all
    let ?w = "\<lparr>ID = uuid_New env, Timestamp = time_Now_1 env,
        Data = getCurrentData c, Comments = []\<rparr>"
    have v1: "versions c1 = versions c @ [?w]" and l1: "lastSaved c1 = time_Now_2 env"
      using c1' by (simp_all add: saveCurrentVersion_versions)
    have old: "\<forall>v\<in>set (versions c). Timestamp v \<le> lastSaved c"
      using Cons.prems(4) by (simp add: list_all_iff)
    have "list_all (\<lambda>v. Timestamp v + 5 * Minute \<le> Timestamp ?w) (versions c)"
      using old due clk by (auto simp: list_all_iff)
    then have sp: "spaced (versions c1)"
      unfolding v1 using Cons.prems(5) by (rule spaced_snoc [rotated])
    have "list_all (\<lambda>v. Timestamp v \<le> lastSaved c1) (versions c1)"
      using old due clk Cons.prems(3) unfolding v1 l1
      by (auto simp: list_all_iff Minute_def)
    then show ?thesis
      using Cons.IH [OF rest clk(4) _ _ sp] l1 by simp
  qed
qed

text \<open>
  Claim C9. A firing of the ticker takes a snapshot if and only if autosave is enabled
  and the clock that \<open>time.Since\<close> reads is at least five minutes past the last
  recorded save; otherwise it changes nothing. Consequently, in every run of callbacks
  over a clock that does not run backwards, however often the ticker fires, the
  versions recorded lie at least five minutes apart, each from the next, and no window
  of five minutes holds more than one of them.
\<close>

theorem autosave_once_per_interval:
  "autoSaveTick now env c =
     (if autoSave c \<and> 5 * Minute \<le> now - lastSaved c then saveCurrentVersion env c else c)
   \<and> (versions (autoSaveTick now env c) \<noteq> versions c \<longleftrightarrow>
        autoSave c \<and> 5 * Minute \<le> now - lastSaved c)
   \<and> 5 * Minute = 300000000000
   \<and> (run json evs c = Some c' \<and> clock_ok t evs \<and> lastSaved c \<le> t
        \<and> list_all (\<lambda>v. Timestamp v \<le> lastSaved c) (versions c) \<and> spaced (versions c) \<longrightarrow>
        spaced (versions c') \<and> length (filter (in_window a) (versions c')) \<le> 1)"
proof -
  have tick: "autoSaveTick now env c =
     (if autoSave c \<and> 5 * Minute \<le> now - lastSaved c then saveCurrentVersion env c else c)"
    by (simp add: autoSaveTick_def time_Since_interval)
  have iff: "versions (autoSaveTick now env c) \<noteq> versions c \<longleftrightarrow>
        autoSave c \<and> 5 * Minute \<le> now - lastSaved c"
    unfolding tick by (simp add: saveCurrentVersion_versions)
  have five: "5 * Minute = 300000000000"
    by (simp add: Minute_def)
  have runs: "run json evs c = Some c' \<and> clock_ok t evs \<and> lastSaved c \<le> t
        \<and> list_all (\<lambda>v. Timestamp v \<le> lastSaved c) (versions c) \<and> spaced (versions c) \<longrightarrow>
        spaced (versions c') \<and> length (filter (in_window a) (versions c')) \<le> 1"
    using run_spaced [of json evs c c' t] spaced_window [of "versions c'" a] by blast
  show ?thesis
    using tick iff five runs by (intro conjI)
qed

theorem autosave_once_per_interval_witness:
  "run encoding_json three_ticks fresh_canvas = Some (snapshots [reads_1, reads_3] fresh_canvas)
   \<and> clock_ok 0 three_ticks \<and> lastSaved fresh_canvas \<le> 0
   \<and> list_all (\<lambda>v. Timestamp v \<le> lastSaved fresh_canvas) (versions fresh_canvas)
   \<and> spaced (versions fresh_canvas)
   \<and> map Timestamp (versions (snapshots [reads_1, reads_3] fresh_canvas)) =
       [63000000000000000001, 63000000301000000001]
   \<and> spaced (versions (snapshots [reads_1, reads_3] fresh_canvas))
   \<and> length (filter (in_window 63000000000000000000)
        (versions (snapshots [reads_1, reads_3] fresh_canvas))) \<le> 1"
proof -
  have clk: "clock_ok 0 three_ticks"
    by (simp add: three_ticks_def reads_1_def reads_2_def reads_3_def)
  have init: "lastSaved fresh_canvas \<le> 0"
    "list_all (\<lambda>v. Timestamp v \<le> lastSaved fresh_canvas) (versions fresh_canvas)"
    "spaced (versions fresh_canvas)"
    by (simp_all add: fresh_canvas_def spaced_def)
  have ts: "map Timestamp (versions (snapshots [reads_1, reads_3] fresh_canvas)) =
       [63000000000000000001, 63000000301000000001]"
    by (simp add: saveCurrentVersion_versions reads_1_def reads_3_def)
      (simp add: fresh_canvas_def)
  note a = autosave_once_per_interval [of _ _ fresh_canvas encoding_json three_ticks
      "snapshots [reads_1, reads_3] fresh_canvas" 0 63000000000000000000]
  from a run_three_ticks clk init
  have "spaced (versions (snapshots [reads_1, reads_3] fresh_canvas))"
    "length (filter (in_window 63000000000000000000)
        (versions (snapshots [reads_1, reads_3] fresh_canvas))) \<le> 1"
    by blast+
  then show ?thesis
    using run_three_ticks clk init ts by (intro conjI)
qed


section \<open>PDF layout: the nine rectangles\<close>

lemma normalize_up_eq:
  "0 \<le> k \<Longrightarrow> nat k \<le> n \<Longrightarrow> 2 powi k \<le> x \<Longrightarrow> x < 2 powi (k + 1) \<Longrightarrow> normalize_up n x = k"
proof (induction n x arbitrary: k rule: normalize_up.induct)
  case (1 x)
  then show ?case by simp
next
  case (2 n x)
  show ?case
  proof (cases "x < 2")
    case True
    have "k = 0"
    proof (rule ccontr)
      assume "k \<noteq> 0"
      then have "1 \<le> k" using 2 by simp
      then have "(2::rat) powi 1 \<le> 2 powi k" by (intro power_int_increasing) auto
      then show False using True 2 by simp
    qed
    then show ?thesis using True by simp
  next
    case False
    have "k \<noteq> 0" using False 2 by auto
    then have k: "1 \<le> k" using 2 by simp
    have "normalize_up n (x / 2) = k - 1"
      using 2 k False by (intro "2.IH") (auto simp: power_int_diff power_int_add)
    then show ?thesis using False by simp
  qed
qed

lemma normalize_down_eq:
  "k \<le> 0 \<Longrightarrow> nat (- k) \<le> n \<Longrightarrow> 2 powi k \<le> x \<Longrightarrow> x < 2 powi (k + 1) \<Longrightarrow>
     normalize_down n x = k"
proof (induction n x arbitrary: k rule: normalize_down.induct)
  case (1 x)
  then show ?case by simp
next
  case (2 n x)
  show ?case
  proof (cases "1 \<le> x")
    case True
    have "k = 0"
    proof (rule ccontr)
      assume "k \<noteq> 0"
      then have "k + 1 \<le> 0" using 2 by simp
      then have "(2::rat) powi (k + 1) \<le> 2 powi 0" by (intro power_int_increasing) auto
      then show False using True 2 by simp
    qed
    then show ?thesis using True by simp
  next
    case False
    have "k \<noteq> 0" using False 2 by auto
    then have k: "k \<le> - 1" using 2 by simp
    have "normalize_down n (x * 2) = k + 1"
      using 2 k False by (intro "2.IH") (auto simp: power_int_diff power_int_add)
    then show ?thesis using False by simp
  qed
qed

text \<open>In the binade of exponent \<open>e\<close> the rounding is to a multiple of \<open>2\<^sup>e\<^sup>-\<^sup>5\<^sup>2\<close>.\<close>

lemma float64_binade:
  assumes "2 powi e \<le> \<bar>x\<bar>" "\<bar>x\<bar> < 2 powi (e + 1)" "- 1022 \<le> e" "e \<le> 1023"
  shows "float64 x = of_int (round_half_even (x / 2 powi (e - 52))) * 2 powi (e - 52)"
proof -
  have "float64_exponent x = e"
  proof (cases "1 \<le> \<bar>x\<bar>")
    case True
    have "0 \<le> e"
    proof (rule ccontr)
      assume "\<not> 0 \<le> e"
      then have "e + 1 \<le> 0" by simp
      then have "(2::rat) powi (e + 1) \<le> 2 powi 0" by (intro power_int_increasing) auto
      then show False using True assms by simp
    qed
    then show ?thesis using True assms by (simp add: float64_exponent_def normalize_up_eq)
  next
    case False
    have "e \<le> 0"
    proof (rule ccontr)
      assume "\<not> e \<le> 0"
      then have "0 \<le> e" by simp
      then have "(2::rat) powi 0 \<le> 2 powi e" by (intro power_int_increasing) auto
      then show False using False assms by simp
    qed
    then show ?thesis using False assms by (simp add: float64_exponent_def normalize_down_eq)
  qed
  then show ?thesis by (simp add: float64_def Let_def)
qed

lemma floor_rat_numeral_div:
  "\<lfloor>numeral a / numeral b :: rat\<rfloor> = numeral a div numeral b"
  using floor_divide_of_int_eq [of "numeral a" "numeral b", where ?'a = rat] by simp

lemmas float64_eval = round_half_even_def power_int_minus floor_rat_numeral_div

lemma float64_constants:
  "float64 (6 / 10) = 5404319552844595 / 9007199254740992"
  "float64 (4 / 10) = 3602879701896397 / 9007199254740992"
  "float64 (3 / 5) = 5404319552844595 / 9007199254740992"
  "float64 (2 / 5) = 3602879701896397 / 9007199254740992"
     apply (subst float64_binade [of "- 1"]; simp add: float64_eval)
    apply (subst float64_binade [of "- 2"]; simp add: float64_eval)
   apply (subst float64_binade [of "- 1"]; simp add: float64_eval)
  apply (subst float64_binade [of "- 2"]; simp add: float64_eval)
  done

lemma float64_exact:
  "float64 20 = 20" "float64 277 = 277" "float64 400 = 400" "float64 80 = 80"
  "float64 90 = 90" "float64 170 = 170" "float64 250 = 250" "float64 330 = 330"
  "float64 200 = 200" "float64 210 = 210"
           apply (subst float64_binade [of 4]; simp add: float64_eval)
          apply (subst float64_binade [of 8]; simp add: float64_eval)
         apply (subst float64_binade [of 8]; simp add: float64_eval)
        apply (subst float64_binade [of 6]; simp add: float64_eval)
       apply (subst float64_binade [of 6]; simp add: float64_eval)
      apply (subst float64_binade [of 7]; simp add: float64_eval)
     apply (subst float64_binade [of 7]; simp add: float64_eval)
    apply (subst float64_binade [of 8]; simp add: float64_eval)
   apply (subst float64_binade [of 7]; simp add: float64_eval)
  apply (subst float64_binade [of 7]; simp add: float64_eval)
  done

lemma topHeight_eq: "topHeight = 2923821320581939 / 17592186044416"
proof -
  have "float64 (277 * (5404319552844595 / 9007199254740992)) = 2923821320581939 / 17592186044416"
    by (subst float64_binade [of 7]; simp add: float64_eval)
  then show ?thesis
    by (simp add: topHeight_def fmul_def fsub_def float64_exact float64_constants)
qed

lemma bottomHeight_eq: "bottomHeight = 1949214213721293 / 17592186044416"
proof -
  have "float64 (277 * (3602879701896397 / 9007199254740992)) = 1949214213721293 / 17592186044416"
    by (subst float64_binade [of 6]; simp add: float64_eval)
  then show ?thesis
    by (simp add: bottomHeight_def fmul_def fsub_def float64_exact float64_constants)
qed

lemma half_topHeight: "fdiv topHeight 2 = topHeight / 2"
  unfolding fdiv_def topHeight_eq
  by (subst float64_binade [of 6]; simp add: float64_eval)

lemma offsets:
  "fadd 10 (topHeight / 2) = 10 + topHeight / 2" "fadd 10 topHeight = 10 + topHeight"
  unfolding fadd_def topHeight_eq
   apply (subst float64_binade [of 6]; simp add: float64_eval)
  apply (subst float64_binade [of 7]; simp add: float64_eval)
  done

lemma float_steps:
  "fmul 2 10 = 20" "fsub 297 20 = 277" "fsub 420 20 = 400" "fdiv 400 5 = 80"
  "fdiv 400 2 = 200" "fadd 10 80 = 90" "fadd 90 80 = 170" "fadd 170 80 = 250"
  "fadd 250 80 = 330" "fadd 10 200 = 210"
  by (simp_all add: fmul_def fsub_def fdiv_def fadd_def float64_exact)

lemma sections_eq:
  "exportToPDF_sections c =
     [drawSection 10 10 80 topHeight ''Key Partners'' (keyPartners c),
      drawSection 90 10 80 (topHeight / 2) ''Key Activities'' (keyActivities c),
      drawSection 90 (10 + topHeight / 2) 80 (topHeight / 2) ''Key Resources'' (keyResources c),
      drawSection 170 10 80 topHeight ''Value Proposition'' (valueProposition c),
      drawSection 250 10 80 (topHeight / 2) ''Customer Relationships'' (customerRel c),
      drawSection 250 (10 + topHeight / 2) 80 (topHeight / 2) ''Channels'' (channels c),
      drawSection 330 10 80 topHeight ''Customer Segments'' (customerSegments c),
      drawSection 10 (10 + topHeight) 200 bottomHeight ''Cost Structure'' (costStructure c),
      drawSection 210 (10 + topHeight) 200 bottomHeight ''Revenue Streams'' (revenueStreams c)]"
  unfolding exportToPDF_sections_def Let_def
  unfolding topHeight_def [symmetric] bottomHeight_def [symmetric]
  unfolding float_steps half_topHeight
  unfolding offsets
  by (rule refl)

lemma covers_drawSection:
  "covers (drawSection x y w h t s) px py \<longleftrightarrow> x \<le> px \<and> px < x + w \<and> y \<le> py \<and> py < y + h"
  by (simp add: covers_def drawSection_def)

lemma tiling:
  fixes T B :: rat
  assumes "0 < T" "0 < B" "T + B = 277"
  shows "length (filter (\<lambda>r. covers r px py)
     [drawSection 10 10 80 T t1 s1,
      drawSection 90 10 80 (T / 2) t2 s2,
      drawSection 90 (10 + T / 2) 80 (T / 2) t3 s3,
      drawSection 170 10 80 T t4 s4,
      drawSection 250 10 80 (T / 2) t5 s5,
      drawSection 250 (10 + T / 2) 80 (T / 2) t6 s6,
      drawSection 330 10 80 T t7 s7,
      drawSection 10 (10 + T) 200 B t8 s8,
      drawSection 210 (10 + T) 200 B t9 s9]) = (if in_content_area px py then 1 else 0)"
proof (cases "px < 10 \<or> 410 \<le> px")
  case True
  then show ?thesis
  proof
    assume "px < 10"
    then show ?thesis using assms by (simp add: covers_drawSection in_content_area_def)
  next
    assume "410 \<le> px"
    then show ?thesis using assms by (simp add: covers_drawSection in_content_area_def)
  qed
next
  case False
  then have px: "10 \<le> px" "px < 410" by simp_all
  show ?thesis
  proof (cases "py < 10 \<or> 287 \<le> py")
    case True
    then show ?thesis
    proof
      assume "py < 10"
      then show ?thesis using assms px by (simp add: covers_drawSection in_content_area_def)
    next
      assume "287 \<le> py"
      then show ?thesis using assms px by (simp add: covers_drawSection in_content_area_def)
    qed
  next
    case False
    then have py: "10 \<le> py" "py < 287" by simp_all
    show ?thesis
    proof (cases "py < 10 + T")
      case top: True
      show ?thesis
      proof (cases "py < 10 + T / 2")
        case upper: True
        consider "px < 90" | "90 \<le> px" "px < 170" | "170 \<le> px" "px < 250"
          | "250 \<le> px" "px < 330" | "330 \<le> px"
          by linarith
        then show ?thesis
          by cases
            (use assms px py top upper in
              \<open>simp_all add: covers_drawSection in_content_area_def\<close>)
      next
        case False
        then have lower: "10 + T / 2 \<le> py" by simp
        consider "px < 90" | "90 \<le> px" "px < 170" | "170 \<le> px" "px < 250"
          | "250 \<le> px" "px < 330" | "330 \<le> px"
          by linarith
        then show ?thesis
          by cases
            (use assms px py top lower in
              \<open>simp_all add: covers_drawSection in_content_area_def\<close>)
      qed
    next
      case False
      then have bottom: "10 + T \<le> py" by simp
      show ?thesis
      proof (cases "px < 210")
        case True
        then show ?thesis
          using assms px py bottom by (simp add: covers_drawSection in_content_area_def)
      next
        case False
        then show ?thesis
          using assms px py bottom by (simp add: covers_drawSection in_content_area_def)
      qed
    qed
  qed
qed

lemma areas:
  fixes T B :: rat
  assumes "T + B = 277"
  shows "sum_list (map area
     [drawSection 10 10 80 T t1 s1,
      drawSection 90 10 80 (T / 2) t2 s2,
      drawSection 90 (10 + T / 2) 80 (T / 2) t3 s3,
      drawSection 170 10 80 T t4 s4,
      drawSection 250 10 80 (T / 2) t5 s5,
      drawSection 250 (10 + T / 2) 80 (T / 2) t6 s6,
      drawSection 330 10 80 T t7 s7,
      drawSection 10 (10 + T) 200 B t8 s8,
      drawSection 210 (10 + T) 200 B t9 s9]) = (420 - 2 * 10) * (297 - 2 * 10)"
proof -
  have "B = 277 - T" using assms by simp
  then show ?thesis by (simp add: area_def drawSection_def)
qed

lemma band_heights:
  "0 < topHeight" "0 < bottomHeight" "topHeight + bottomHeight = 277"
  by (simp_all add: topHeight_eq bottomHeight_eq)

text \<open>
  Claim C7. For the page of 420 by 297 with margin 10 that \<open>exportToPDF\<close> sets,
  \<open>drawSection\<close> is called nine times: five columns of width 80, a fifth of the
  content width 400, over the top band, the second and the fourth cut into two halves
  of equal height, and two columns of width 200 over the bottom band. The top band's
  height is the \<open>float64\<close> product of the content height 277 and \<open>0.6\<close>, the bottom
  band's that of 277 and \<open>0.4\<close>: each within \<open>1 / 2 ^ 46\<close> of 60 and 40 percent, and
  together exactly 277. Every point of the content area lies in exactly one of the nine
  rectangles and every other point in none: no gap, no overlap, nothing outside. The
  nine areas add up to content width times content height.
\<close>

theorem exportToPDF_sections_tile_content_area:
  "map geometry (exportToPDF_sections c) =
     [(10, 10, 80, topHeight),
      (90, 10, 80, topHeight / 2),
      (90, 10 + topHeight / 2, 80, topHeight / 2),
      (170, 10, 80, topHeight),
      (250, 10, 80, topHeight / 2),
      (250, 10 + topHeight / 2, 80, topHeight / 2),
      (330, 10, 80, topHeight),
      (10, 10 + topHeight, 200, bottomHeight),
      (210, 10 + topHeight, 200, bottomHeight)]
   \<and> map title (exportToPDF_sections c) =
     [''Key Partners'', ''Key Activities'', ''Key Resources'', ''Value Proposition'',
      ''Customer Relationships'', ''Channels'', ''Customer Segments'', ''Cost Structure'',
      ''Revenue Streams'']
   \<and> map content (exportToPDF_sections c) =
     [keyPartners c, keyActivities c, keyResources c, valueProposition c, customerRel c,
      channels c, customerSegments c, costStructure c, revenueStreams c]
   \<and> (80 :: rat) = (420 - 2 * 10) / 5 \<and> (200 :: rat) = (420 - 2 * 10) / 2
   \<and> topHeight = fmul (297 - 2 * 10) (float64 (6 / 10))
   \<and> bottomHeight = fmul (297 - 2 * 10) (float64 (4 / 10))
   \<and> \<bar>topHeight - 6 / 10 * (297 - 2 * 10)\<bar> < 1 / 2 ^ 46
   \<and> \<bar>bottomHeight - 4 / 10 * (297 - 2 * 10)\<bar> < 1 / 2 ^ 46
   \<and> topHeight + bottomHeight = 297 - 2 * 10
   \<and> length (filter (\<lambda>r. covers r px py) (exportToPDF_sections c)) =
       (if in_content_area px py then 1 else 0)
   \<and> sum_list (map area (exportToPDF_sections c)) = (420 - 2 * 10) * (297 - 2 * 10)"
proof -
  have geo: "map geometry (exportToPDF_sections c) =
     [(10, 10, 80, topHeight),
      (90, 10, 80, topHeight / 2),
      (90, 10 + topHeight / 2, 80, topHeight / 2),
      (170, 10, 80, topHeight),
      (250, 10, 80, topHeight / 2),
      (250, 10 + topHeight / 2, 80, topHeight / 2),
      (330, 10, 80, topHeight),
      (10, 10 + topHeight, 200, bottomHeight),
      (210, 10 + topHeight, 200, bottomHeight)]"
    unfolding sections_eq by (simp add: geometry_def drawSection_def)
  have titles: "map title (exportToPDF_sections c) =
     [''Key Partners'', ''Key Activities'', ''Key Resources'', ''Value Proposition'',
      ''Customer Relationships'', ''Channels'', ''Customer Segments'', ''Cost Structure'',
      ''Revenue Streams'']"
    unfolding sections_eq by (simp add: drawSection_def)
  have contents: "map content (exportToPDF_sections c) =
     [keyPartners c, keyActivities c, keyResources c, valueProposition c, customerRel c,
      channels c, customerSegments c, costStructure c, revenueStreams c]"
    unfolding sections_eq by (simp add: drawSection_def)
  have widths: "(80 :: rat) = (420 - 2 * 10) / 5" "(200 :: rat) = (420 - 2 * 10) / 2"
    by simp_all
  have top: "topHeight = fmul (297 - 2 * 10) (float64 (6 / 10))"
    by (simp add: topHeight_def float_steps)
  have bottom: "bottomHeight = fmul (297 - 2 * 10) (float64 (4 / 10))"
    by (simp add: bottomHeight_def float_steps)
  have near: "\<bar>topHeight - 6 / 10 * (297 - 2 * 10)\<bar> < 1 / 2 ^ 46"
    "\<bar>bottomHeight - 4 / 10 * (297 - 2 * 10)\<bar> < 1 / 2 ^ 46"
    by (simp_all add: topHeight_eq bottomHeight_eq)
  have total: "topHeight + bottomHeight = 297 - 2 * 10"
    using band_heights by simp
  have tiles: "length (filter (\<lambda>r. covers r px py) (exportToPDF_sections c)) =
       (if in_content_area px py then 1 else 0)"
    unfolding sections_eq by (rule tiling [OF band_heights])
  have sum: "sum_list (map area (exportToPDF_sections c)) = (420 - 2 * 10) * (297 - 2 * 10)"
    unfolding sections_eq by (rule areas [OF band_heights(3)])
  show ?thesis
    using geo titles contents widths top bottom near total tiles sum by (intro conjI)
qed

end
